theory Spec2Isabelle
  imports Main "HOL-Library.Multiset"
begin

section \<open>JavaScript values and errors\<close>

text \<open>
  The transaction callbacks of \<^verbatim>\<open>app.js\<close> receive whatever JSON value the store holds
  at a path. \<open>JNull\<close> stands for both \<^verbatim>\<open>null\<close> and \<^verbatim>\<open>undefined\<close> (an absent node);
  numbers are integers (scores, millisecond timestamps).
\<close>

datatype jsval =
    JNull
  | JBool bool
  | JNum int
  | JStr string
  | JObj "(string \<times> jsval) list"

datatype error = TypeError | SyntaxError | Error string

text \<open>JavaScript truthiness, as used by \<^verbatim>\<open>!x\<close>, \<^verbatim>\<open>x || y\<close> and \<^verbatim>\<open>if (x)\<close>.\<close>

fun truthy :: "jsval \<Rightarrow> bool" where
  "truthy JNull = False"
| "truthy (JBool b) = b"
| "truthy (JNum n) = (n \<noteq> 0)"
| "truthy (JStr s) = (s \<noteq> [])"
| "truthy (JObj kvs) = True"

text \<open>
  Property access \<^verbatim>\<open>v.k\<close> for a data property name \<open>k\<close> of the room document: it throws
  a TypeError on \<^verbatim>\<open>null\<close>/\<^verbatim>\<open>undefined\<close>, reads the member of an object (\<^verbatim>\<open>undefined\<close>
  when there is none) and is \<^verbatim>\<open>undefined\<close> on a boolean, a number or a string.
\<close>

fun getProp :: "jsval \<Rightarrow> string \<Rightarrow> error + jsval" where
  "getProp JNull k = Inl TypeError"
| "getProp (JObj kvs) k = Inr (case map_of kvs k of None \<Rightarrow> JNull | Some v \<Rightarrow> v)"
| "getProp v k = Inr JNull"

text \<open>The member \<open>k\<close> that a stored value has: \<^verbatim>\<open>null\<close> unless it is an object with one.\<close>

definition memberOf :: "jsval \<Rightarrow> string \<Rightarrow> jsval" where
  "memberOf v k =
     (case v of
        JObj kvs \<Rightarrow> (case map_of kvs k of None \<Rightarrow> JNull | Some x \<Rightarrow> x)
      | _ \<Rightarrow> JNull)"

text \<open>Truthiness of a nullable string (\<^verbatim>\<open>!key\<close>, \<^verbatim>\<open>!c.title\<close>, \<^verbatim>\<open>!room.buzz?.firstBuzzTeam\<close>).\<close>

definition truthyStr :: "string option \<Rightarrow> bool" where
  "truthyStr s = (case s of None \<Rightarrow> False | Some t \<Rightarrow> t \<noteq> [])"

section \<open>The room document\<close>

datatype phase = Board | Question | Answer

record team =
  name :: "string option"
  score :: "int option"

record buzzState =
  firstBuzzTeam :: "string option"
  firstBuzzAt :: "int option"

record timerState =
  durationSec :: "int option"
  endAtMs :: "int option"

record player =
  playerName :: string
  playerTeamId :: "string option"
  joinedAt :: int

text \<open>
  The document written by \<^verbatim>\<open>createRoomAsHost\<close>, with the \<^verbatim>\<open>players\<close> roster that
  \<^verbatim>\<open>joinRoomAsPlayer\<close> adds. A field that JavaScript may hold as \<^verbatim>\<open>null\<close> is an option;
  the objects \<^verbatim>\<open>teams\<close>, \<^verbatim>\<open>boardUsed\<close> and \<^verbatim>\<open>players\<close> are maps from their keys.
\<close>

record room =
  createdAt :: int
  phase :: phase
  activeClueKey :: "string option"
  teams :: "string \<rightharpoonup> team"
  buzz :: buzzState
  timer :: timerState
  boardUsed :: "string \<rightharpoonup> bool"
  players :: "string \<rightharpoonup> player"

text \<open>\<^verbatim>\<open>room.timer?.durationSec ?? 20\<close>\<close>

definition timerDuration :: "room \<Rightarrow> int" where
  "timerDuration r = (case durationSec (timer r) of None \<Rightarrow> 20 | Some d \<Rightarrow> d)"

subsection \<open>Partial updates\<close>

text \<open>
  \<^verbatim>\<open>roomRef.update({path: value, ...})\<close> writes the listed paths in one atomic patch and
  leaves every other path alone. One constructor per path the program writes.
\<close>

datatype pathWrite =
    SetPhase phase
  | SetActiveClueKey "string option"
  | SetFirstBuzzTeam "string option"
  | SetFirstBuzzAt "int option"
  | SetEndAtMs "int option"
  | SetBoardUsed string bool

fun applyWrite :: "pathWrite \<Rightarrow> room \<Rightarrow> room" where
  "applyWrite (SetPhase p) r = r\<lparr>phase := p\<rparr>"
| "applyWrite (SetActiveClueKey k) r = r\<lparr>activeClueKey := k\<rparr>"
| "applyWrite (SetFirstBuzzTeam t) r = r\<lparr>buzz := (buzz r)\<lparr>firstBuzzTeam := t\<rparr>\<rparr>"
| "applyWrite (SetFirstBuzzAt a) r = r\<lparr>buzz := (buzz r)\<lparr>firstBuzzAt := a\<rparr>\<rparr>"
| "applyWrite (SetEndAtMs e) r = r\<lparr>timer := (timer r)\<lparr>endAtMs := e\<rparr>\<rparr>"
| "applyWrite (SetBoardUsed k b) r = r\<lparr>boardUsed := (boardUsed r)(k \<mapsto> b)\<rparr>"

definition refUpdate :: "pathWrite list \<Rightarrow> room \<Rightarrow> room" where
  "refUpdate ws r = fold applyWrite ws r"

subsection \<open>The buzz transaction\<close>

text \<open>
  The value the store hands to a transaction on the \<^verbatim>\<open>buzz\<close> child. The store keeps no
  \<^verbatim>\<open>null\<close> members, so a field that is \<^verbatim>\<open>null\<close> is missing from the object, and a
  \<^verbatim>\<open>buzz\<close> node with no member at all is absent (\<^verbatim>\<open>null\<close>).
\<close>

definition buzzNode :: "room \<Rightarrow> jsval" where
  "buzzNode r =
     (let kvs =
        (case firstBuzzTeam (buzz r) of None \<Rightarrow> [] | Some t \<Rightarrow> [(''firstBuzzTeam'', JStr t)]) @
        (case firstBuzzAt (buzz r) of None \<Rightarrow> [] | Some a \<Rightarrow> [(''firstBuzzAt'', JNum a)])
      in if kvs = [] then JNull else JObj kvs)"

text \<open>\<^verbatim>\<open>firebase.database.ServerValue.TIMESTAMP\<close>: the store replaces it by its clock.\<close>

datatype serverValue = TIMESTAMP

record buzzWrite =
  newFirstBuzzTeam :: "string option"
  newFirstBuzzAt :: serverValue

text \<open>
  The update function of \<^verbatim>\<open>playerBuzz\<close>, for the player's \<^verbatim>\<open>appState.teamId\<close>:
  \<^verbatim>\<open>
  (current) => {
    if (!current) current = {};
    if (current.firstBuzzTeam) return; // already set
    return { firstBuzzTeam: appState.teamId,
             firstBuzzAt: firebase.database.ServerValue.TIMESTAMP };
  }
  \<close>
  \<open>Inr None\<close> is the return without a value, which aborts the transaction.
\<close>

definition buzzUpdateFn :: "string option \<Rightarrow> jsval \<Rightarrow> error + buzzWrite option" where
  "buzzUpdateFn tid current =
     (let cur = (if \<not> truthy current then JObj [] else current) in
      case getProp cur ''firstBuzzTeam'' of
        Inl e \<Rightarrow> Inl e
      | Inr t \<Rightarrow>
          if truthy t then Inr None
          else Inr (Some \<lparr>newFirstBuzzTeam = tid, newFirstBuzzAt = TIMESTAMP\<rparr>))"

text \<open>
  The store runs the update function on the current value of the \<^verbatim>\<open>buzz\<close> child and,
  unless it aborts or throws, replaces the child by the result, the sentinel resolved to
  the server time \<open>srv\<close>. The store serialises transactions on one path, so concurrent
  attempts are a sequence of these commits.
\<close>

definition buzzCommit :: "string option \<Rightarrow> int \<Rightarrow> room \<Rightarrow> room" where
  "buzzCommit tid srv r =
     (case buzzUpdateFn tid (buzzNode r) of
        Inr (Some w) \<Rightarrow>
          r\<lparr>buzz := \<lparr>firstBuzzTeam = newFirstBuzzTeam w,
                     firstBuzzAt = (case newFirstBuzzAt w of TIMESTAMP \<Rightarrow> Some srv)\<rparr>\<rparr>
      | _ \<Rightarrow> r)"

text \<open>The rooms a subscriber sees while a list of attempts (team, server time) commits.\<close>

fun buzzTrace :: "room \<Rightarrow> (string option \<times> int) list \<Rightarrow> room list" where
  "buzzTrace r [] = []"
| "buzzTrace r ((tid, srv) # as) = buzzCommit tid srv r # buzzTrace (buzzCommit tid srv r) as"

subsection \<open>The score transaction\<close>

text \<open>
  \<^verbatim>\<open>scoreRef.transaction((cur) => (cur || 0) + delta)\<close> on \<^verbatim>\<open>teams/<teamId>/score\<close>:
  \<open>scoreUpdateFn\<close> is the update function, \<open>scoreCommit\<close> the store applying it.
\<close>

definition scoreUpdateFn :: "int \<Rightarrow> int option \<Rightarrow> int" where
  "scoreUpdateFn delta cur =
     (case cur of None \<Rightarrow> 0 | Some n \<Rightarrow> if n \<noteq> 0 then n else 0) + delta"

definition scoreNode :: "room \<Rightarrow> string \<Rightarrow> int option" where
  "scoreNode r tId = (case teams r tId of None \<Rightarrow> None | Some t \<Rightarrow> score t)"

definition scoreCommit :: "string \<Rightarrow> int \<Rightarrow> room \<Rightarrow> room" where
  "scoreCommit tId delta r =
     (let new = scoreUpdateFn delta (scoreNode r tId);
          t = (case teams r tId of None \<Rightarrow> \<lparr>name = None, score = None\<rparr> | Some t' \<Rightarrow> t')
      in r\<lparr>teams := (teams r)(tId \<mapsto> t\<lparr>score := Some new\<rparr>)\<rparr>)"

subsection \<open>Requests to the store\<close>

datatype request =
    Update "pathWrite list"
  | BuzzTransaction "string option"
  | ScoreTransaction string int

text \<open>What a request does to the room document; \<open>srv\<close> is the server's clock.\<close>

fun commit :: "int \<Rightarrow> request \<Rightarrow> room \<Rightarrow> room" where
  "commit srv (Update ws) r = refUpdate ws r"
| "commit srv (BuzzTransaction tid) r = buzzCommit tid srv r"
| "commit srv (ScoreTransaction tId delta) r = scoreCommit tId delta r"

section \<open>Clue keys\<close>

text \<open>
  The decimal text of a number in a template string or in \<^verbatim>\<open>Array.prototype.join\<close>.
\<close>

fun digits10 :: "nat \<Rightarrow> string" where
  "digits10 n =
     (if n < 10 then [''0123456789'' ! n]
      else digits10 (n div 10) @ [''0123456789'' ! (n mod 10)])"

declare digits10.simps [simp del]

definition numStr :: "int \<Rightarrow> string" where
  "numStr i = (if i < 0 then CHR ''-'' # digits10 (nat (- i)) else digits10 (nat i))"

fun join :: "string \<Rightarrow> string list \<Rightarrow> string" where
  "join sep [] = []"
| "join sep [x] = x"
| "join sep (x # y # ys) = x @ sep @ join sep (y # ys)"

text \<open>Reading a decimal text back, to compare the texts of two numbers.\<close>

fun digitVal :: "char \<Rightarrow> nat" where
  "digitVal ch = (if ch = CHR ''1'' then 1 else if ch = CHR ''2'' then 2 else if ch = CHR ''3'' then 3
     else if ch = CHR ''4'' then 4 else if ch = CHR ''5'' then 5 else if ch = CHR ''6'' then 6
     else if ch = CHR ''7'' then 7 else if ch = CHR ''8'' then 8 else if ch = CHR ''9'' then 9 else 0)"

definition parseNat :: "string \<Rightarrow> nat" where
  "parseNat s = foldl (\<lambda>a ch. 10 * a + digitVal ch) 0 s"

text \<open>\<^verbatim>\<open>`c${ci}_v${v}`\<close>\<close>

definition clueKeyOf :: "nat \<Rightarrow> int \<Rightarrow> string" where
  "clueKeyOf i v = ''c'' @ numStr (int i) @ ''_v'' @ numStr v"

definition pointValues :: "int list" where
  "pointValues = [100, 200, 300, 400, 500]"

text \<open>
  \<^verbatim>\<open>
  function makeInitialBoardState() {
    const used = {};
    for (let ci=0; ci<5; ci++) {
      for (const v of [100,200,300,400,500]) {
        used[`c${ci}_v${v}`] = false;
      }
    }
    return used;
  }
  \<close>
\<close>

definition makeInitialBoardState :: "string \<rightharpoonup> bool" where
  "makeInitialBoardState =
     fold (\<lambda>i used. fold (\<lambda>v used'. used'(clueKeyOf i v \<mapsto> False)) pointValues used)
       [0..<5] Map.empty"

text \<open>The keys of the tiles \<^verbatim>\<open>renderBoard\<close> attaches \<^verbatim>\<open>onHostTileClick\<close> to.\<close>

definition tileKeys :: "string list" where
  "tileKeys = concat (map (\<lambda>v. map (\<lambda>i. clueKeyOf i v) [0..<5]) pointValues)"

section \<open>The question bank\<close>

record clueJson =
  clueValue :: int
  question :: string
  answer :: string

text \<open>\<open>None\<close> for \<^verbatim>\<open>clues\<close> or \<^verbatim>\<open>categories\<close>: the member is missing or is no array.
  A missing text is the empty string: both are falsy.\<close>

record categoryJson =
  title :: string
  clues :: "clueJson list option"

record questionsJson =
  categories :: "categoryJson list option"

text \<open>What \<^verbatim>\<open>fetch("questions.json")\<close> and \<^verbatim>\<open>res.json()\<close> give.\<close>

datatype response = NotOk | BadJson | Body questionsJson

fun checkClues :: "clueJson list \<Rightarrow> error option" where
  "checkClues [] = None"
| "checkClues (clue # rest) =
     (if question clue = [] \<or> answer clue = []
      then Some (Error ''Each clue needs question and answer'')
      else checkClues rest)"

fun checkCategories :: "categoryJson list \<Rightarrow> error option" where
  "checkCategories [] = None"
| "checkCategories (c # rest) =
     (case clues c of
        None \<Rightarrow> Some (Error ''Each category must have a title and exactly 5 clues'')
      | Some cl \<Rightarrow>
          if title c = [] \<or> length cl \<noteq> 5
          then Some (Error ''Each category must have a title and exactly 5 clues'')
          else if join '','' (map numStr (sort (map clueValue cl))) \<noteq> ''100,200,300,400,500''
          then Some (Error ''Each category must have clue values 100,200,300,400,500'')
          else (case checkClues cl of
                  Some e \<Rightarrow> Some e
                | None \<Rightarrow> checkCategories rest))"

fun loadQuestions :: "response \<Rightarrow> error + questionsJson" where
  "loadQuestions NotOk = Inl (Error ''Failed to load questions.json'')"
| "loadQuestions BadJson = Inl SyntaxError"
| "loadQuestions (Body d) =
     (case categories d of
        None \<Rightarrow> Inl (Error ''questions.json must contain exactly 5 categories'')
      | Some cs \<Rightarrow>
          if length cs \<noteq> 5
          then Inl (Error ''questions.json must contain exactly 5 categories'')
          else (case checkCategories cs of
                  Some e \<Rightarrow> Inl e
                | None \<Rightarrow> Inr d))"

text \<open>An entry of the board index: \<^verbatim>\<open>{ ci, ...clue, categoryTitle: cat.title }\<close>.\<close>

record clue = clueJson +
  ci :: nat
  categoryTitle :: string

fun indexClues :: "nat \<Rightarrow> string \<Rightarrow> clueJson list \<Rightarrow> (string \<rightharpoonup> clue) \<Rightarrow> (string \<rightharpoonup> clue)" where
  "indexClues i t [] m = m"
| "indexClues i t (x # xs) m =
     indexClues i t xs
       (m(clueKeyOf i (clueValue x) \<mapsto>
          \<lparr>clueValue = clueValue x, question = question x, answer = answer x,
           ci = i, categoryTitle = t\<rparr>))"

fun indexCategories ::
  "nat \<Rightarrow> categoryJson list \<Rightarrow> (string \<rightharpoonup> clue) \<Rightarrow> error + (string \<rightharpoonup> clue)" where
  "indexCategories i [] m = Inr m"
| "indexCategories i (cat # rest) m =
     (case clues cat of
        None \<Rightarrow> Inl TypeError
      | Some cl \<Rightarrow> indexCategories (Suc i) rest (indexClues i (title cat) cl m))"

definition buildBoardIndex :: "questionsJson \<Rightarrow> error + (string \<rightharpoonup> clue)" where
  "buildBoardIndex q =
     (case categories q of
        None \<Rightarrow> Inl TypeError
      | Some cs \<Rightarrow> indexCategories 0 cs Map.empty)"

section \<open>A client\<close>

datatype mode = Host | Player

text \<open>
  The fields of \<^verbatim>\<open>appState\<close> that the operations read or write (\<open>localClueKey\<close> is
  \<^verbatim>\<open>appState.activeClueKey\<close>), and the properties of the page that they set:
  \<^verbatim>\<open>clueModal.hidden\<close>, the class \<^verbatim>\<open>flipped\<close> of \<^verbatim>\<open>clueInner\<close>, whether
  \<^verbatim>\<open>$("clueCard").onclick\<close> has been assigned, and \<^verbatim>\<open>$("btnBuzz").disabled\<close>.
\<close>

record client =
  mode :: "mode option"
  roomCode :: "string option"
  teamId :: "string option"
  questions :: "questionsJson option"
  boardIndex :: "(string \<rightharpoonup> clue) option"
  roomData :: "room option"
  localClueKey :: "string option"
  activeClue :: "clue option"
  clueModalHidden :: bool
  clueInnerFlipped :: bool
  clueCardOnclick :: bool
  btnBuzzDisabled :: bool

text \<open>
  The script's \<^verbatim>\<open>appState\<close> before any room, on a page whose clue card has no handler
  yet; \<open>h\<close> and \<open>b\<close> are what the page's markup says of the modal and the buzz button.
\<close>

definition landing :: "bool \<Rightarrow> bool \<Rightarrow> client" where
  "landing h b =
     \<lparr>mode = None, roomCode = None, teamId = None, questions = None, boardIndex = None,
      roomData = None, localClueKey = None, activeClue = None,
      clueModalHidden = h, clueInnerFlipped = False, clueCardOnclick = False,
      btnBuzzDisabled = b\<rparr>"

subsection \<open>The clue modal\<close>

text \<open>
  \<^verbatim>\<open>
  function openClueModal(clueKey, phase) {
  // HARD GUARD: never open modal unless host with active room
  if (
    appState.mode !== "host" ||
    !appState.roomData ||
    !appState.roomData.activeClueKey
  ) {
    return;

    appState.activeClueKey = clueKey;
    appState.activeClue = clue;
    ...
    $("clueCard").onclick = async () => { ... };
    ...
  }
  \<close>
  The block of the guard is not closed after \<^verbatim>\<open>return\<close>: its closing brace is the one
  after the last statement. When the guard holds the function returns at once; when it
  does not, the block is skipped. The assignments to \<^verbatim>\<open>appState.activeClue\<close>,
  to \<^verbatim>\<open>clueModal.hidden\<close> and to \<^verbatim>\<open>$("clueCard").onclick\<close> are never reached.
\<close>

definition openClueModal :: "client \<Rightarrow> string \<Rightarrow> phase \<Rightarrow> client" where
  "openClueModal c clueKey ph =
     (if mode c \<noteq> Some Host \<or> roomData c = None \<or>
         \<not> truthyStr (case roomData c of None \<Rightarrow> None | Some room \<Rightarrow> activeClueKey room)
      then c
      else c)"

definition closeClueModal :: "client \<Rightarrow> client" where
  "closeClueModal c =
     c\<lparr>clueModalHidden := True, localClueKey := None, activeClue := None,
       clueInnerFlipped := False\<rparr>"

text \<open>
  The handler that the unreachable part of \<^verbatim>\<open>openClueModal\<close> would assign to the clue
  card:
  \<^verbatim>\<open>
  async () => {
    if (appState.mode !== "host") return;
    const room = appState.roomData;
    if (!room) return;
    if (room.phase === "question") {
      await appState.roomRef.update({ phase: "answer" });
      clueInner.classList.add("flipped");
    }
  }
  \<close>
\<close>

definition clueCardHandler :: "client \<Rightarrow> client \<times> request option" where
  "clueCardHandler c =
     (if mode c \<noteq> Some Host then (c, None)
      else case roomData c of
        None \<Rightarrow> (c, None)
      | Some room \<Rightarrow>
          if phase room = Question
          then (c\<lparr>clueInnerFlipped := True\<rparr>, Some (Update [SetPhase Answer]))
          else (c, None))"

text \<open>A click on the clue card runs the handler the card has, if it has one.\<close>

definition clueCardClick :: "client \<Rightarrow> client \<times> request option" where
  "clueCardClick c = (if clueCardOnclick c then clueCardHandler c else (c, None))"

subsection \<open>Host operations\<close>

text \<open>
  Each operation gives the client afterwards and the request it sends to the store, if
  any; \<open>now\<close> is \<^verbatim>\<open>nowServerMs()\<close>. \<open>Inl\<close> is an exception.
\<close>

definition onHostTileClick :: "client \<Rightarrow> int \<Rightarrow> string \<Rightarrow> error + client \<times> request option" where
  "onHostTileClick c now clueKey =
     (case roomData c of
        None \<Rightarrow> Inr (c, None)
      | Some room \<Rightarrow>
          if boardUsed room clueKey = Some True then Inr (c, None)
          else if phase room \<noteq> Board then Inr (c, None)
          else (case boardIndex c of
                  None \<Rightarrow> Inl TypeError
                | Some idx \<Rightarrow>
                    (case idx clueKey of
                       None \<Rightarrow> Inr (c, None)
                     | Some cl \<Rightarrow>
                         let endAt = now + timerDuration room * 1000 in
                         Inr (openClueModal c clueKey Question,
                              Some (Update [SetPhase Question,
                                            SetActiveClueKey (Some clueKey),
                                            SetFirstBuzzTeam None,
                                            SetFirstBuzzAt None,
                                            SetEndAtMs (Some endAt)])))))"

definition returnToBoardAndMarkUsed :: "client \<Rightarrow> client \<times> request option" where
  "returnToBoardAndMarkUsed c =
     (if mode c \<noteq> Some Host then (c, None)
      else case (case roomData c of None \<Rightarrow> None | Some room \<Rightarrow> activeClueKey room) of
        None \<Rightarrow> (c, None)
      | Some k \<Rightarrow>
          if k = [] then (c, None)
          else (closeClueModal c,
                Some (Update [SetBoardUsed k True,
                              SetPhase Board,
                              SetActiveClueKey None,
                              SetEndAtMs None,
                              SetFirstBuzzTeam None,
                              SetFirstBuzzAt None])))"

definition resetBuzz :: "client \<Rightarrow> request option" where
  "resetBuzz c =
     (if mode c \<noteq> Some Host then None
      else Some (Update [SetFirstBuzzTeam None, SetFirstBuzzAt None]))"

text \<open>\<^verbatim>\<open>room.phase\<close> is read without a guard: with no snapshot it throws.\<close>

definition resetTimer :: "client \<Rightarrow> int \<Rightarrow> error + request option" where
  "resetTimer c now =
     (if mode c \<noteq> Some Host then Inr None
      else case roomData c of
        None \<Rightarrow> Inl TypeError
      | Some room \<Rightarrow>
          if phase room = Question
          then Inr (Some (Update [SetEndAtMs (Some (now + timerDuration room * 1000))]))
          else Inr (Some (Update [SetEndAtMs None])))"

definition adjustScore :: "client \<Rightarrow> string \<Rightarrow> int \<Rightarrow> request option" where
  "adjustScore c tId delta =
     (if mode c \<noteq> Some Host then None else Some (ScoreTransaction tId delta))"

text \<open>\<^verbatim>\<open>appState.activeClue?.value ?? 0\<close>\<close>

definition activeClueValue :: "client \<Rightarrow> int" where
  "activeClueValue c = (case activeClue c of None \<Rightarrow> 0 | Some cl \<Rightarrow> clueValue cl)"

definition btnAwardT1 :: "client \<Rightarrow> request option" where
  "btnAwardT1 c = (let v = activeClueValue c in adjustScore c ''team1'' v)"

definition btnAwardT2 :: "client \<Rightarrow> request option" where
  "btnAwardT2 c = (let v = activeClueValue c in adjustScore c ''team2'' v)"

definition btnPenaltyT1 :: "client \<Rightarrow> request option" where
  "btnPenaltyT1 c = (let v = activeClueValue c in adjustScore c ''team1'' (- v))"

definition btnPenaltyT2 :: "client \<Rightarrow> request option" where
  "btnPenaltyT2 c = (let v = activeClueValue c in adjustScore c ''team2'' (- v))"

subsection \<open>Player operations\<close>

text \<open>
  \<^verbatim>\<open>
  async function playerBuzz() {
    const room = appState.roomData;
    if (!room) return;
    if (room.phase !== "question") return;
    const endAt = room.timer?.endAtMs;
    if (!endAt || nowServerMs() >= endAt) return;
    const buzzRef = appState.roomRef.child("buzz");
    await buzzRef.transaction(...);
  }
  \<close>
\<close>

definition playerBuzz :: "client \<Rightarrow> int \<Rightarrow> request option" where
  "playerBuzz c now =
     (case roomData c of
        None \<Rightarrow> None
      | Some room \<Rightarrow>
          if phase room \<noteq> Question then None
          else (case endAtMs (timer room) of
                  None \<Rightarrow> None
                | Some endAt \<Rightarrow>
                    if endAt = 0 \<or> now \<ge> endAt then None
                    else Some (BuzzTransaction (teamId c))))"

definition updatePlayerBuzzButton :: "client \<Rightarrow> int \<Rightarrow> client" where
  "updatePlayerBuzzButton c now =
     (if mode c \<noteq> Some Player then c
      else case roomData c of
        None \<Rightarrow> c
      | Some room \<Rightarrow>
          let inTime = (case endAtMs (timer room) of
                          None \<Rightarrow> False
                        | Some endAt \<Rightarrow> endAt \<noteq> 0 \<and> now < endAt);
              nobodyBuzzed = \<not> truthyStr (firstBuzzTeam (buzz room));
              enabled = (phase room = Question \<and> inTime \<and> nobodyBuzzed)
          in c\<lparr>btnBuzzDisabled := \<not> enabled\<rparr>)"

text \<open>
  The click listener of the buzz button calls \<^verbatim>\<open>playerBuzz\<close>; the page delivers no click
  to a button whose \<^verbatim>\<open>disabled\<close> property is set.
\<close>

definition btnBuzzClick :: "client \<Rightarrow> int \<Rightarrow> request option" where
  "btnBuzzClick c now = (if btnBuzzDisabled c then None else playerBuzz c now)"

subsection \<open>Snapshots\<close>

text \<open>
  The part of \<^verbatim>\<open>updateAllUI\<close> that changes the client: for the host the modal is kept in
  step with the room, for a player the buzz button is.
\<close>

definition updateAllUI :: "client \<Rightarrow> int \<Rightarrow> client" where
  "updateAllUI c now =
     (case roomData c of
        None \<Rightarrow> c
      | Some room \<Rightarrow>
          let c1 =
            (if mode c = Some Host then
               let c2 =
                 (if phase room \<noteq> Board \<and> truthyStr (activeClueKey room) then
                    (case activeClueKey room of
                       None \<Rightarrow> c
                     | Some active \<Rightarrow>
                         let found = (case boardIndex c of
                                        None \<Rightarrow> False
                                      | Some idx \<Rightarrow> idx active \<noteq> None)
                         in if found \<and> clueModalHidden c then
                              let c3 = openClueModal c active (phase room)
                              in if phase room = Answer then c3\<lparr>clueInnerFlipped := True\<rparr>
                                 else c3
                            else if \<not> clueModalHidden c then
                              (if phase room = Answer then c\<lparr>clueInnerFlipped := True\<rparr>
                               else c)
                            else c)
                  else c)
               in if phase room = Board \<and> \<not> clueModalHidden c2 then closeClueModal c2 else c2
             else c)
          in updatePlayerBuzzButton c1 now)"

text \<open>
  The subscription's handler:
  \<^verbatim>\<open>
  (snap) => {
    appState.roomData = snap.val();
    if (!appState.roomData) return;
    updateAllUI();
  }
  \<close>
\<close>

definition onValue :: "client \<Rightarrow> int \<Rightarrow> room option \<Rightarrow> client" where
  "onValue c now snap =
     (let c1 = c\<lparr>roomData := snap\<rparr>
      in case snap of None \<Rightarrow> c1 | Some room \<Rightarrow> updateAllUI c1 now)"

section \<open>Session lifecycle\<close>

text \<open>The store: the room documents by their path \<^verbatim>\<open>rooms/<code>\<close>.\<close>

type_synonym store = "string \<rightharpoonup> room"

text \<open>\<^verbatim>\<open>`JEP-${n}`\<close> for the random \<open>n\<close> from 1000 to 9999.\<close>

definition randomCode :: "int \<Rightarrow> string" where
  "randomCode n = ''JEP-'' @ numStr n"

definition roomPath :: "string \<Rightarrow> string" where
  "roomPath code = ''rooms/'' @ code"

text \<open>
  The object \<^verbatim>\<open>initial\<close> of \<^verbatim>\<open>createRoomAsHost\<close>, its \<^verbatim>\<open>createdAt\<close> resolved to the
  server time.
\<close>

definition initialRoom :: "int \<Rightarrow> room" where
  "initialRoom srv =
     \<lparr>createdAt = srv,
      phase = Board,
      activeClueKey = None,
      teams = [''team1'' \<mapsto> \<lparr>name = Some ''Team 1'', score = Some 0\<rparr>,
               ''team2'' \<mapsto> \<lparr>name = Some ''Team 2'', score = Some 0\<rparr>],
      buzz = \<lparr>firstBuzzTeam = None, firstBuzzAt = None\<rparr>,
      timer = \<lparr>durationSec = Some 20, endAtMs = None\<rparr>,
      boardUsed = makeInitialBoardState,
      players = Map.empty\<rparr>"

text \<open>
  \<^verbatim>\<open>createRoomAsHost\<close>: the question bank is loaded and validated first; an exception
  there leaves the function before \<^verbatim>\<open>db.ref(roomPath(code)).set(initial)\<close>. The result
  is the client (or the exception) and the store afterwards.
\<close>

definition createRoomAsHost ::
  "client \<Rightarrow> response \<Rightarrow> int \<Rightarrow> int \<Rightarrow> store \<Rightarrow> (error + client) \<times> store" where
  "createRoomAsHost c resp n srv st =
     (case loadQuestions resp of
        Inl e \<Rightarrow> (Inl e, st)
      | Inr q \<Rightarrow>
          let code = randomCode n;
              st' = st(roomPath code \<mapsto> initialRoom srv)
          in (case buildBoardIndex q of
                Inl e \<Rightarrow> (Inl e, st')
              | Inr idx \<Rightarrow>
                  (Inr (c\<lparr>mode := Some Host, roomCode := Some code,
                          questions := Some q, boardIndex := Some idx\<rparr>), st')))"

definition joinRoomAsPlayer ::
  "client \<Rightarrow> string \<Rightarrow> string option \<Rightarrow> string \<Rightarrow> string \<Rightarrow> int \<Rightarrow> store
     \<Rightarrow> (error + client) \<times> store" where
  "joinRoomAsPlayer c code tId pname pid srv st =
     (case st (roomPath code) of
        None \<Rightarrow> (Inl (Error ''Room not found. Check the code.''), st)
      | Some r \<Rightarrow>
          let shown = (if pname = [] then ''Player'' else pname);
              entry = \<lparr>playerName = shown, playerTeamId = tId, joinedAt = srv\<rparr>
          in (Inr (c\<lparr>mode := Some Player, roomCode := Some code, teamId := tId\<rparr>),
              st(roomPath code \<mapsto> r\<lparr>players := (players r)(pid \<mapsto> entry)\<rparr>)))"

definition leaveToLanding :: "client \<Rightarrow> client" where
  "leaveToLanding c =
     closeClueModal
       (c\<lparr>mode := None, roomCode := None, teamId := None, roomData := None,
          questions := None, boardIndex := None\<rparr>)"

section \<open>The room as a transition system\<close>

text \<open>
  One step of the room document: a request of one of the core operations, committed by
  the store. The host is the only writer of the fields its guards read (phase, active
  clue, used flags, timer), and the store shows a client its own writes at once, so a
  host operation runs on a snapshot equal to the document. A player's snapshot may be
  stale: the buzz transaction decides on the store's value. The host's board index is
  the one \<^verbatim>\<open>createRoomAsHost\<close> built from its question bank. The handler of the clue card
  is a step although the program never installs it: what is proved of every step holds
  with the handler installed, too.
\<close>

inductive roomStep :: "room \<Rightarrow> room \<Rightarrow> bool" where
  openClue:
    "roomData c = Some r \<Longrightarrow> boardIndex c = Some idx \<Longrightarrow> buildBoardIndex bank = Inr idx
       \<Longrightarrow> onHostTileClick c now k = Inr (c', Some q)
       \<Longrightarrow> roomStep r (commit srv q r)"
| revealAnswer:
    "roomData c = Some r \<Longrightarrow> clueCardHandler c = (c', Some q)
       \<Longrightarrow> roomStep r (commit srv q r)"
| returnToBoard:
    "roomData c = Some r \<Longrightarrow> returnToBoardAndMarkUsed c = (c', Some q)
       \<Longrightarrow> roomStep r (commit srv q r)"
| buzzReset:
    "resetBuzz c = Some q \<Longrightarrow> roomStep r (commit srv q r)"
| timerReset:
    "roomData c = Some r \<Longrightarrow> resetTimer c now = Inr (Some q)
       \<Longrightarrow> roomStep r (commit srv q r)"
| scoreAdjust:
    "adjustScore c tId delta = Some q \<Longrightarrow> roomStep r (commit srv q r)"
| buzzAttempt:
    "playerBuzz c now = Some q \<Longrightarrow> roomStep r (commit srv q r)"
| playerJoin:
    "roomStep r (r\<lparr>players := (players r)(pid \<mapsto> entry)\<rparr>)"

inductive reachable :: "room \<Rightarrow> bool" where
  created: "reachable (initialRoom srv)"
| step: "reachable r \<Longrightarrow> roomStep r r' \<Longrightarrow> reachable r'"

text \<open>
  The states of a player's client: it joined from a client with no snapshot (as
  \<open>landing\<close> and \<open>leaveToLanding\<close> leave it), then snapshots arrive and the timer loop
  ticks. A click changes nothing in the client.
\<close>

inductive playerReach :: "client \<Rightarrow> bool" where
  joined:
    "roomData c0 = None \<Longrightarrow> joinRoomAsPlayer c0 code (Some tId) pname pid srv st = (Inr c, st')
       \<Longrightarrow> playerReach c"
| snapshot: "playerReach c \<Longrightarrow> playerReach (onValue c now snap)"
| tick: "playerReach c \<Longrightarrow> playerReach (updatePlayerBuzzButton c now)"

text \<open>
  The states of the host's client: it created the room from the landing page; then
  snapshots arrive, and the host clicks tiles, the clue card and the return button.
\<close>

inductive hostReach :: "client \<Rightarrow> bool" where
  hostCreated:
    "createRoomAsHost (landing h b) resp n srv st = (Inr c, st') \<Longrightarrow> hostReach c"
| hostSnapshot: "hostReach c \<Longrightarrow> hostReach (onValue c now snap)"
| hostTile: "hostReach c \<Longrightarrow> onHostTileClick c now k = Inr (c', q) \<Longrightarrow> hostReach c'"
| hostCard: "hostReach c \<Longrightarrow> clueCardClick c = (c', q) \<Longrightarrow> hostReach c'"
| hostReturn: "hostReach c \<Longrightarrow> returnToBoardAndMarkUsed c = (c', q) \<Longrightarrow> hostReach c'"

section \<open>A sample game\<close>

text \<open>A well-formed question bank and clients playing on it, for concrete runs.\<close>

definition sampleClues :: "clueJson list" where
  "sampleClues =
     [\<lparr>clueValue = 300, question = ''q3'', answer = ''a3''\<rparr>,
      \<lparr>clueValue = 100, question = ''q1'', answer = ''a1''\<rparr>,
      \<lparr>clueValue = 500, question = ''q5'', answer = ''a5''\<rparr>,
      \<lparr>clueValue = 200, question = ''q2'', answer = ''a2''\<rparr>,
      \<lparr>clueValue = 400, question = ''q4'', answer = ''a4''\<rparr>]"

definition sampleBank :: questionsJson where
  "sampleBank =
     \<lparr>categories =
        Some (map (\<lambda>t. \<lparr>title = t, clues = Some sampleClues\<rparr>)
                [''Books'', ''Authors'', ''Plots'', ''Quotes'', ''Places''])\<rparr>"

text \<open>The host after \<^verbatim>\<open>createRoomAsHost\<close> on the sample bank, before any snapshot.\<close>

definition sampleIndex :: "string \<rightharpoonup> clue" where
  "sampleIndex = (case buildBoardIndex sampleBank of Inr idx \<Rightarrow> idx | Inl e \<Rightarrow> Map.empty)"

definition sampleHost :: client where
  "sampleHost =
     (landing True True)\<lparr>mode := Some Host, roomCode := Some (randomCode 4271),
        questions := Some sampleBank, boardIndex := Some sampleIndex\<rparr>"

text \<open>The sample room with the clue \<^verbatim>\<open>c2_v300\<close> open since server time 1000.\<close>

definition sampleQuestionRoom :: room where
  "sampleQuestionRoom =
     (initialRoom 0)\<lparr>phase := Question, activeClueKey := Some ''c2_v300'',
        timer := \<lparr>durationSec = Some 20, endAtMs = Some 21000\<rparr>\<rparr>"

text \<open>The sample room back on the board after the clue \<^verbatim>\<open>c2_v300\<close> was played.\<close>

definition sampleUsedRoom :: room where
  "sampleUsedRoom = (initialRoom 0)\<lparr>boardUsed := makeInitialBoardState(''c2_v300'' \<mapsto> True)\<rparr>"

text \<open>And with the clue \<^verbatim>\<open>c0_v100\<close> opened next, at server time 30000.\<close>

definition sampleSecondRoom :: room where
  "sampleSecondRoom =
     sampleUsedRoom\<lparr>phase := Question, activeClueKey := Some ''c0_v100'',
        timer := \<lparr>durationSec = Some 20, endAtMs = Some 50000\<rparr>\<rparr>"

text \<open>The sample room after team 1 won the buzz for \<^verbatim>\<open>c2_v300\<close>.\<close>

definition sampleWonRoom :: room where
  "sampleWonRoom =
     sampleQuestionRoom\<lparr>buzz := \<lparr>firstBuzzTeam = Some ''team1'', firstBuzzAt = Some 1500\<rparr>\<rparr>"

text \<open>A room on the board whose timer runs 30 seconds.\<close>

definition sampleSlowRoom :: room where
  "sampleSlowRoom = (initialRoom 0)\<lparr>timer := \<lparr>durationSec = Some 30, endAtMs = None\<rparr>\<rparr>"

text \<open>A player of team 2 who joined the sample room.\<close>

definition samplePlayer :: client where
  "samplePlayer =
     (landing True True)\<lparr>mode := Some Player, roomCode := Some (randomCode 4271),
        teamId := Some ''team2''\<rparr>"

section \<open>Properties named by the specification\<close>

text \<open>
  A well-formed question bank in the specification's words: exactly 5 categories, each
  with exactly 5 clues whose values are exactly 100, 200, 300, 400 and 500 and whose
  question and answer are not empty. \<open>titledBank\<close> adds what the loader also asks of a
  category: a title. \<open>loadErrors\<close> lists the exceptions of \<^verbatim>\<open>loadQuestions\<close>.
\<close>

definition clueTexts :: "clueJson list \<Rightarrow> bool" where
  "clueTexts cl = list_all (\<lambda>x. question x \<noteq> [] \<and> answer x \<noteq> []) cl"

definition categoryShape :: "categoryJson \<Rightarrow> bool" where
  "categoryShape c =
     (case clues c of
        None \<Rightarrow> False
      | Some cl \<Rightarrow> length cl = 5 \<and> mset (map clueValue cl) = mset pointValues \<and> clueTexts cl)"

definition wellFormedBank :: "questionsJson \<Rightarrow> bool" where
  "wellFormedBank q =
     (case categories q of
        None \<Rightarrow> False
      | Some cs \<Rightarrow> length cs = 5 \<and> list_all categoryShape cs)"

definition titledBank :: "questionsJson \<Rightarrow> bool" where
  "titledBank q =
     (case categories q of None \<Rightarrow> False | Some cs \<Rightarrow> list_all (\<lambda>c. title c \<noteq> []) cs)"

definition loadErrors :: "error list" where
  "loadErrors =
     [Error ''Failed to load questions.json'', SyntaxError,
      Error ''questions.json must contain exactly 5 categories'',
      Error ''Each category must have a title and exactly 5 clues'',
      Error ''Each category must have clue values 100,200,300,400,500'',
      Error ''Each clue needs question and answer'']"

section \<open>Decimal texts\<close>

lemma digit_nth_cases:
  "k < 10 \<Longrightarrow> ''0123456789'' ! k \<in> set ''0123456789''"
  by (rule nth_mem) simp

lemma digits10_chars: "set (digits10 n) \<subseteq> set ''0123456789''"
proof (induction n rule: digits10.induct)
  case (1 n)
  show ?case
  proof (cases "n < 10")
    case True
    then show ?thesis using digit_nth_cases[of n] by (subst digits10.simps) simp
  next
    case False
    have "n mod 10 < 10" by simp
    then have "''0123456789'' ! (n mod 10) \<in> set ''0123456789''" by (rule digit_nth_cases)
    with False 1 show ?thesis by (subst digits10.simps) simp
  qed
qed

lemma digits10_no_comma: "CHR '','' \<notin> set (digits10 n)"
  using digits10_chars[of n] by auto

lemma numStr_no_comma: "CHR '','' \<notin> set (numStr v)"
  by (simp add: numStr_def digits10_no_comma)

lemma digitVal_all: "\<forall>k \<in> set [0..<10]. digitVal (''0123456789'' ! k) = k"
  by code_simp

lemma digitVal_nth: "k < 10 \<Longrightarrow> digitVal (''0123456789'' ! k) = k"
  using digitVal_all by (simp del: digitVal.simps)

lemma parseNat_digits10: "parseNat (digits10 n) = n"
proof (induction n rule: digits10.induct)
  case (1 n)
  show ?case
  proof (cases "n < 10")
    case True
    then show ?thesis using digitVal_nth[of n]
      by (subst digits10.simps) (simp add: parseNat_def del: digitVal.simps)
  next
    case False
    have "digitVal (''0123456789'' ! (n mod 10)) = n mod 10" by (rule digitVal_nth) simp
    with False 1 show ?thesis
      by (subst digits10.simps) (simp add: parseNat_def del: digitVal.simps)
  qed
qed

lemma digits10_inj: "digits10 n = digits10 m \<Longrightarrow> n = m"
  by (metis parseNat_digits10)

lemma digits10_no_minus: "CHR ''-'' \<notin> set (digits10 n)"
  using digits10_chars[of n] by auto

lemma digits10_nonempty: "digits10 n \<noteq> []"
  by (subst digits10.simps) simp

lemma numStr_inj: "numStr v = numStr w \<Longrightarrow> v = w"
proof -
  assume eq: "numStr v = numStr w"
  have a: "\<And>n m. CHR ''-'' # digits10 n \<noteq> digits10 m"
    using digits10_no_minus by (metis list.set_intros(1))
  show ?thesis
  proof (cases "v < 0"; cases "w < 0")
    assume "v < 0" "w < 0"
    with eq have "nat (- v) = nat (- w)" by (auto simp: numStr_def dest: digits10_inj)
    with \<open>v < 0\<close> \<open>w < 0\<close> show ?thesis by simp
  next
    assume "v < 0" "\<not> w < 0"
    with eq a show ?thesis by (auto simp: numStr_def)
  next
    assume "\<not> v < 0" "w < 0"
    with eq a[of "nat (- w)" "nat v"] show ?thesis by (auto simp: numStr_def)
  next
    assume "\<not> v < 0" "\<not> w < 0"
    with eq have "nat v = nat w" by (auto simp: numStr_def dest: digits10_inj)
    with \<open>\<not> v < 0\<close> \<open>\<not> w < 0\<close> show ?thesis by simp
  qed
qed

lemma numStr_100: "numStr 100 = ''100''" by code_simp
lemma numStr_200: "numStr 200 = ''200''" by code_simp
lemma numStr_300: "numStr 300 = ''300''" by code_simp
lemma numStr_400: "numStr 400 = ''400''" by code_simp
lemma numStr_500: "numStr 500 = ''500''" by code_simp

lemma split_at_sep:
  "c \<notin> set xs \<Longrightarrow> c \<notin> set ys \<Longrightarrow> xs @ c # r = ys @ c # r' \<Longrightarrow> xs = ys \<and> r = r'"
proof (induction xs arbitrary: ys)
  case Nil
  show ?case
  proof (cases ys)
    case Nil
    with Nil.prems show ?thesis by simp
  next
    case (Cons y ys')
    with Nil.prems show ?thesis by simp
  qed
next
  case (Cons x xs)
  show ?case
  proof (cases ys)
    case Nil
    with Cons.prems show ?thesis by simp
  next
    case ys: (Cons y ys')
    with Cons.prems have "x = y" and "xs @ c # r = ys' @ c # r'"
      and "c \<notin> set xs" and "c \<notin> set ys'" by simp_all
    with Cons.IH[of ys'] ys show ?thesis by simp
  qed
qed

lemma join5_eq:
  assumes "join '','' (map numStr [a, b, c, d, e]) = ''100,200,300,400,500''"
  shows "[a, b, c, d, e] = [100, 200, 300, 400, 500]"
proof -
  have nc: "\<And>v. CHR '','' \<notin> set (numStr v)" by (rule numStr_no_comma)
  from assms have 0:
    "numStr a @ CHR '','' # (numStr b @ CHR '','' # (numStr c @ CHR '','' # (numStr d @ CHR '','' # numStr e)))
       = numStr 100 @ CHR '','' # (numStr 200 @ CHR '','' # (numStr 300 @ CHR '','' # (numStr 400 @ CHR '','' # numStr 500)))"
    by (simp add: numStr_100 numStr_200 numStr_300 numStr_400 numStr_500)
  from split_at_sep[OF nc nc 0] have a: "numStr a = numStr 100" and 1:
    "numStr b @ CHR '','' # (numStr c @ CHR '','' # (numStr d @ CHR '','' # numStr e))
       = numStr 200 @ CHR '','' # (numStr 300 @ CHR '','' # (numStr 400 @ CHR '','' # numStr 500))"
    by auto
  from split_at_sep[OF nc nc 1] have b: "numStr b = numStr 200" and 2:
    "numStr c @ CHR '','' # (numStr d @ CHR '','' # numStr e)
       = numStr 300 @ CHR '','' # (numStr 400 @ CHR '','' # numStr 500)"
    by auto
  from split_at_sep[OF nc nc 2] have c: "numStr c = numStr 300" and 3:
    "numStr d @ CHR '','' # numStr e = numStr 400 @ CHR '','' # numStr 500"
    by auto
  from split_at_sep[OF nc nc 3] have d: "numStr d = numStr 400" and e: "numStr e = numStr 500"
    by auto
  from numStr_inj[OF a] numStr_inj[OF b] numStr_inj[OF c] numStr_inj[OF d] numStr_inj[OF e]
  show ?thesis by simp
qed

section \<open>Validation of the question bank\<close>

lemma checkClues_None: "checkClues cl = None \<longleftrightarrow> clueTexts cl"
  by (induction cl) (auto simp: clueTexts_def)

lemma length5_list:
  assumes "length xs = 5"
  obtains a b c d e where "xs = [a, b, c, d, e]"
proof -
  from assms obtain a t1 where 1: "xs = a # t1" "length t1 = 4" by (cases xs) auto
  then obtain b t2 where 2: "t1 = b # t2" "length t2 = 3" by (cases t1) auto
  then obtain c t3 where 3: "t2 = c # t3" "length t3 = 2" by (cases t2) auto
  then obtain d t4 where 4: "t3 = d # t4" "length t4 = 1" by (cases t3) auto
  then obtain e where 5: "t4 = [e]" by (cases t4) auto
  from 1 2 3 4 5 have "xs = [a, b, c, d, e]" by simp
  then show thesis by (rule that)
qed

lemma join_pointValues: "join '','' (map numStr pointValues) = ''100,200,300,400,500''"
  by (simp add: pointValues_def numStr_100 numStr_200 numStr_300 numStr_400 numStr_500)

lemma sorted_pointValues: "sorted pointValues"
  by (simp add: pointValues_def)

lemma values_check:
  assumes "length vs = 5"
  shows "join '','' (map numStr (sort vs)) = ''100,200,300,400,500'' \<longleftrightarrow> mset vs = mset pointValues"
proof
  assume eq: "join '','' (map numStr (sort vs)) = ''100,200,300,400,500''"
  from assms have "length (sort vs) = 5" by simp
  then obtain a b c d e where s: "sort vs = [a, b, c, d, e]" by (rule length5_list)
  with eq have "[a, b, c, d, e] = [100, 200, 300, 400, 500]" by (intro join5_eq) simp
  with s have "sort vs = pointValues" by (simp add: pointValues_def)
  then have "mset (sort vs) = mset pointValues" by simp
  then show "mset vs = mset pointValues" by simp
next
  assume "mset vs = mset pointValues"
  then have "sort vs = pointValues"
    using sorted_pointValues by (metis properties_for_sort)
  then show "join '','' (map numStr (sort vs)) = ''100,200,300,400,500''"
    by (simp add: join_pointValues)
qed

lemma checkCategories_None:
  "checkCategories cs = None \<longleftrightarrow> list_all (\<lambda>c. title c \<noteq> [] \<and> categoryShape c) cs"
proof (induction cs)
  case Nil
  show ?case by simp
next
  case (Cons c cs)
  show ?case
  proof (cases "clues c")
    case None
    then show ?thesis by (simp add: categoryShape_def)
  next
    case (Some cl)
    show ?thesis
    proof (cases "length cl = 5")
      case False
      with Some show ?thesis by (simp add: categoryShape_def)
    next
      case True
      from values_check[of "map clueValue cl"] True
      have v: "join '','' (map numStr (sort (map clueValue cl))) = ''100,200,300,400,500''
                 \<longleftrightarrow> mset (map clueValue cl) = mset pointValues" by simp
      show ?thesis
      proof (cases "checkClues cl")
        case None
        with Some True v Cons.IH checkClues_None[of cl] show ?thesis
          by (simp add: categoryShape_def)
      next
        case (Some e)
        with \<open>clues c = Some cl\<close> True v checkClues_None[of cl] show ?thesis
          by (simp add: categoryShape_def)
      qed
    qed
  qed
qed

lemma loadQuestions_Inr:
  "loadQuestions resp = Inr q \<longleftrightarrow> resp = Body q \<and> wellFormedBank q \<and> titledBank q"
proof (cases resp)
  case NotOk
  then show ?thesis by simp
next
  case BadJson
  then show ?thesis by simp
next
  case (Body d)
  show ?thesis
  proof (cases "categories d")
    case None
    with Body show ?thesis by (auto simp: wellFormedBank_def)
  next
    case (Some cs)
    have "list_all (\<lambda>c. title c \<noteq> [] \<and> categoryShape c) cs
            \<longleftrightarrow> list_all categoryShape cs \<and> list_all (\<lambda>c. title c \<noteq> []) cs"
      by (induction cs) auto
    with Body Some checkCategories_None[of cs] show ?thesis
      by (auto simp: wellFormedBank_def titledBank_def split: option.splits)
  qed
qed

lemma checkClues_Some: "checkClues cl = Some e \<Longrightarrow> e = Error ''Each clue needs question and answer''"
  by (induction cl) (auto split: if_splits)

lemma checkCategories_Some: "checkCategories cs = Some e \<Longrightarrow> e \<in> set loadErrors"
proof (induction cs)
  case Nil
  then show ?case by simp
next
  case (Cons c cs)
  show ?case
  proof (cases "clues c")
    case None
    with Cons.prems show ?thesis by (simp add: loadErrors_def)
  next
    case (Some cl)
    show ?thesis
    proof (cases "title c = [] \<or> length cl \<noteq> 5")
      case True
      with Some Cons.prems show ?thesis by (simp add: loadErrors_def)
    next
      case shape: False
      show ?thesis
      proof (cases "join '','' (map numStr (sort (map clueValue cl))) \<noteq> ''100,200,300,400,500''")
        case True
        with Some shape Cons.prems show ?thesis by (simp add: loadErrors_def)
      next
        case vals: False
        show ?thesis
        proof (cases "checkClues cl")
          case None
          with Some shape vals Cons.prems have "checkCategories cs = Some e" by simp
          then show ?thesis by (rule Cons.IH)
        next
          case ce: (Some e')
          with Some shape vals Cons.prems have "e = e'" by simp
          with ce have "e = Error ''Each clue needs question and answer''"
            by (simp add: checkClues_Some)
          then show ?thesis by (simp add: loadErrors_def)
        qed
      qed
    qed
  qed
qed

lemma loadQuestions_Inl: "loadQuestions resp = Inl e \<Longrightarrow> e \<in> set loadErrors"
proof (cases resp)
  case NotOk
  assume "loadQuestions resp = Inl e"
  with NotOk show ?thesis by (simp add: loadErrors_def)
next
  case BadJson
  assume "loadQuestions resp = Inl e"
  with BadJson show ?thesis by (simp add: loadErrors_def)
next
  case (Body d)
  assume l: "loadQuestions resp = Inl e"
  show ?thesis
  proof (cases "categories d")
    case None
    with Body l show ?thesis by (simp add: loadErrors_def)
  next
    case (Some cs)
    show ?thesis
    proof (cases "length cs \<noteq> 5")
      case True
      with Some Body l show ?thesis by (simp add: loadErrors_def)
    next
      case False
      with Some Body l have "checkCategories cs = Some e"
        by (simp split: option.splits)
      then show ?thesis by (rule checkCategories_Some)
    qed
  qed
qed

section \<open>The initial board and the board index\<close>

lemma fold_values_apply:
  "fold (\<lambda>v used'. used'(clueKeyOf i v \<mapsto> False)) vs used k =
     (if k \<in> clueKeyOf i ` set vs then Some False else used k)"
  by (induction vs arbitrary: used) auto

lemma fold_categories_apply:
  "fold (\<lambda>i used. fold (\<lambda>v used'. used'(clueKeyOf i v \<mapsto> False)) vs used) js used k =
     (if k \<in> (\<Union>i \<in> set js. clueKeyOf i ` set vs) then Some False else used k)"
  by (induction js arbitrary: used) (auto simp: fold_values_apply)

lemma set_tileKeys: "set tileKeys = (\<Union>i \<in> set [0..<5]. clueKeyOf i ` set pointValues)"
  by (auto simp: tileKeys_def)

lemma makeInitialBoardState_apply:
  "makeInitialBoardState k = (if k \<in> set tileKeys then Some False else None)"
  unfolding makeInitialBoardState_def fold_categories_apply set_tileKeys by simp

lemma dom_makeInitialBoardState: "dom makeInitialBoardState = set tileKeys"
  by (auto simp: makeInitialBoardState_apply dom_def)

lemma tileKeys_eq:
  "tileKeys =
     [''c0_v100'', ''c1_v100'', ''c2_v100'', ''c3_v100'', ''c4_v100'',
      ''c0_v200'', ''c1_v200'', ''c2_v200'', ''c3_v200'', ''c4_v200'',
      ''c0_v300'', ''c1_v300'', ''c2_v300'', ''c3_v300'', ''c4_v300'',
      ''c0_v400'', ''c1_v400'', ''c2_v400'', ''c3_v400'', ''c4_v400'',
      ''c0_v500'', ''c1_v500'', ''c2_v500'', ''c3_v500'', ''c4_v500'']"
  by code_simp

lemma distinct_tileKeys: "distinct tileKeys"
  unfolding tileKeys_eq by simp

lemma length_tileKeys: "length tileKeys = 25"
  unfolding tileKeys_eq by simp

lemma card_makeInitialBoardState: "card (dom makeInitialBoardState) = 25"
  using distinct_card[OF distinct_tileKeys] by (simp add: dom_makeInitialBoardState length_tileKeys)

lemma clueKeyOf_nonempty: "clueKeyOf i v \<noteq> []"
  by (simp add: clueKeyOf_def)

lemma indexClues_grows: "m k \<noteq> None \<Longrightarrow> indexClues i t xs m k \<noteq> None"
  by (induction xs arbitrary: m) auto

lemma indexClues_hit: "x \<in> set xs \<Longrightarrow> indexClues i t xs m (clueKeyOf i (clueValue x)) \<noteq> None"
proof (induction xs arbitrary: m)
  case Nil
  then show ?case by simp
next
  case (Cons y ys)
  show ?case
  proof (cases "x = y")
    case True
    then show ?thesis by (simp add: indexClues_grows)
  next
    case False
    with Cons show ?thesis by simp
  qed
qed

lemma indexClues_empty_key: "indexClues i t xs m [] = m []"
  by (induction xs arbitrary: m) (simp_all add: clueKeyOf_def)

lemma indexCategories_grows:
  "indexCategories i cs m = Inr m' \<Longrightarrow> m k \<noteq> None \<Longrightarrow> m' k \<noteq> None"
proof (induction cs arbitrary: i m)
  case Nil
  then show ?case by simp
next
  case (Cons c cs)
  from Cons.prems(1) obtain cl0 where c: "clues c = Some cl0"
    and rest: "indexCategories (Suc i) cs (indexClues i (title c) cl0 m) = Inr m'"
    by (auto split: option.splits)
  from Cons.prems(2) have "indexClues i (title c) cl0 m k \<noteq> None" by (rule indexClues_grows)
  from Cons.IH[OF rest this] show ?case .
qed

lemma indexCategories_hit:
  "indexCategories i cs m = Inr m' \<Longrightarrow> j < length cs \<Longrightarrow> clues (cs ! j) = Some cl
     \<Longrightarrow> x \<in> set cl \<Longrightarrow> m' (clueKeyOf (i + j) (clueValue x)) \<noteq> None"
proof (induction cs arbitrary: i m j)
  case Nil
  then show ?case by simp
next
  case (Cons c cs)
  from Cons.prems(1) obtain cl0 where c: "clues c = Some cl0"
    and rest: "indexCategories (Suc i) cs (indexClues i (title c) cl0 m) = Inr m'"
    by (auto split: option.splits)
  show ?case
  proof (cases j)
    case 0
    with Cons.prems c have "cl0 = cl" by simp
    with Cons.prems(4) have "indexClues i (title c) cl0 m (clueKeyOf i (clueValue x)) \<noteq> None"
      by (simp add: indexClues_hit)
    with rest 0 show ?thesis by (simp add: indexCategories_grows)
  next
    case (Suc j')
    with Cons.prems have "j' < length cs" "clues (cs ! j') = Some cl" by simp_all
    from Cons.IH[OF rest this Cons.prems(4)] Suc show ?thesis by simp
  qed
qed

lemma indexCategories_empty_key: "indexCategories i cs m = Inr m' \<Longrightarrow> m' [] = m []"
proof (induction cs arbitrary: i m)
  case Nil
  then show ?case by simp
next
  case (Cons c cs)
  from Cons.prems(1) obtain cl0 where c: "clues c = Some cl0"
    and rest: "indexCategories (Suc i) cs (indexClues i (title c) cl0 m) = Inr m'"
    by (auto split: option.splits)
  from Cons.IH[OF rest] show ?case by (simp add: indexClues_empty_key)
qed

lemma indexCategories_total:
  "list_all (\<lambda>c. clues c \<noteq> None) cs \<Longrightarrow> \<exists>m'. indexCategories i cs m = Inr m'"
  by (induction cs arbitrary: i m) auto

lemma buildBoardIndex_keys: "buildBoardIndex q = Inr idx \<Longrightarrow> idx k \<noteq> None \<Longrightarrow> k \<noteq> []"
  using indexCategories_empty_key[of 0 _ Map.empty idx]
  by (auto simp: buildBoardIndex_def split: option.splits)

lemma wellFormed_clues:
  "wellFormedBank q \<Longrightarrow> \<exists>cs. categories q = Some cs \<and> list_all (\<lambda>c. clues c \<noteq> None) cs"
proof -
  assume w: "wellFormedBank q"
  then obtain cs where cs: "categories q = Some cs" "list_all categoryShape cs"
    by (auto simp: wellFormedBank_def split: option.splits)
  have "list_all categoryShape cs \<Longrightarrow> list_all (\<lambda>c. clues c \<noteq> None) cs"
    by (induction cs) (auto simp: categoryShape_def split: option.splits)
  with cs show ?thesis by simp
qed

lemma buildBoardIndex_total: "wellFormedBank q \<Longrightarrow> \<exists>idx. buildBoardIndex q = Inr idx"
  using wellFormed_clues[of q] indexCategories_total[of _ 0 Map.empty]
  by (auto simp: buildBoardIndex_def)

lemma tileKeys_indexed:
  assumes w: "wellFormedBank q" and b: "buildBoardIndex q = Inr idx" and k: "k \<in> set tileKeys"
  shows "idx k \<noteq> None"
proof -
  from w obtain cs where cs: "categories q = Some cs" "length cs = 5" "list_all categoryShape cs"
    by (auto simp: wellFormedBank_def split: option.splits)
  from b cs have ix: "indexCategories 0 cs Map.empty = Inr idx" by (simp add: buildBoardIndex_def)
  from k obtain i v where iv: "i < 5" "v \<in> set pointValues" "k = clueKeyOf i v"
    by (auto simp: set_tileKeys)
  from cs iv have "categoryShape (cs ! i)" by (simp add: list_all_length)
  then obtain cl where cl: "clues (cs ! i) = Some cl" "mset (map clueValue cl) = mset pointValues"
    by (auto simp: categoryShape_def split: option.splits)
  from cl(2) have "set (map clueValue cl) = set pointValues" by (rule mset_eq_setD)
  with iv have "v \<in> clueValue ` set cl" by simp
  then obtain x where x: "x \<in> set cl" "clueValue x = v" by auto
  from indexCategories_hit[OF ix _ cl(1) x(1)] iv cs x show ?thesis by simp
qed

section \<open>The buzz race\<close>

lemma member_buzzNode:
  "truthy (memberOf (buzzNode r) ''firstBuzzTeam'') = truthyStr (firstBuzzTeam (buzz r))"
  by (auto simp: buzzNode_def memberOf_def truthyStr_def Let_def split: option.splits)

lemma buzzUpdateFn_abort:
  "truthy (memberOf current ''firstBuzzTeam'') \<Longrightarrow> buzzUpdateFn tid current = Inr None"
  by (cases current) (auto simp: buzzUpdateFn_def memberOf_def split: option.splits)

lemma buzzUpdateFn_write:
  "\<not> truthy (memberOf current ''firstBuzzTeam'') \<Longrightarrow>
     buzzUpdateFn tid current = Inr (Some \<lparr>newFirstBuzzTeam = tid, newFirstBuzzAt = TIMESTAMP\<rparr>)"
  by (cases current) (auto simp: buzzUpdateFn_def memberOf_def split: option.splits)

lemma buzzCommit_set:
  "truthyStr (firstBuzzTeam (buzz r)) \<Longrightarrow> buzzCommit tid srv r = r"
  by (simp add: buzzCommit_def buzzUpdateFn_abort member_buzzNode)

lemma buzzCommit_unset:
  "\<not> truthyStr (firstBuzzTeam (buzz r)) \<Longrightarrow>
     buzzCommit tid srv r = r\<lparr>buzz := \<lparr>firstBuzzTeam = tid, firstBuzzAt = Some srv\<rparr>\<rparr>"
  by (simp add: buzzCommit_def buzzUpdateFn_write member_buzzNode)

lemma buzzTrace_set:
  "truthyStr (firstBuzzTeam (buzz r)) \<Longrightarrow> r' \<in> set (buzzTrace r as) \<Longrightarrow> r' = r"
  by (induction r as rule: buzzTrace.induct) (auto simp: buzzCommit_set)

lemma buzzTrace_first:
  assumes "\<not> truthyStr (firstBuzzTeam (buzz r))" and "truthyStr tid"
    and "r' \<in> set (buzzTrace r ((tid, srv) # as))"
  shows "r' = r\<lparr>buzz := \<lparr>firstBuzzTeam = tid, firstBuzzAt = Some srv\<rparr>\<rparr>"
proof -
  let ?w = "r\<lparr>buzz := \<lparr>firstBuzzTeam = tid, firstBuzzAt = Some srv\<rparr>\<rparr>"
  from assms(1) have c: "buzzCommit tid srv r = ?w" by (rule buzzCommit_unset)
  from assms(2) have t: "truthyStr (firstBuzzTeam (buzz ?w))" by simp
  from assms(3) c have "r' = ?w \<or> r' \<in> set (buzzTrace ?w as)" by simp
  with buzzTrace_set[OF t] show ?thesis by blast
qed

lemma refUpdate_openClue:
  "refUpdate [SetPhase Question, SetActiveClueKey (Some k), SetFirstBuzzTeam None,
              SetFirstBuzzAt None, SetEndAtMs e] r =
     r\<lparr>phase := Question, activeClueKey := Some k,
       buzz := \<lparr>firstBuzzTeam = None, firstBuzzAt = None\<rparr>,
       timer := (timer r)\<lparr>endAtMs := e\<rparr>\<rparr>"
  by (simp add: refUpdate_def)

lemma onHostTileClick_request:
  "onHostTileClick c now k = Inr (c', Some q) \<Longrightarrow>
     \<exists>room. roomData c = Some room \<and> c' = c \<and> phase room = Board \<and> boardUsed room k \<noteq> Some True \<and>
       q = Update [SetPhase Question, SetActiveClueKey (Some k), SetFirstBuzzTeam None,
                   SetFirstBuzzAt None, SetEndAtMs (Some (now + timerDuration room * 1000))]"
  by (auto simp: onHostTileClick_def openClueModal_def Let_def split: option.splits if_splits)

text \<open>
  C10. For every value of the \<^verbatim>\<open>buzz\<close> child, the update function of the buzz
  transaction returns without an exception: it aborts exactly when the value has a truthy
  \<^verbatim>\<open>firstBuzzTeam\<close>, and otherwise (also for \<^verbatim>\<open>null\<close>, which it replaces by an empty
  object) returns the player's team with the server-timestamp sentinel.
\<close>

theorem buzz_update_total:
  "buzzUpdateFn tid current =
     (if truthy (memberOf current ''firstBuzzTeam'') then Inr None
      else Inr (Some \<lparr>newFirstBuzzTeam = tid, newFirstBuzzAt = TIMESTAMP\<rparr>))"
  by (cases current) (auto simp: buzzUpdateFn_def memberOf_def split: option.splits)

theorem buzz_update_total_witness:
  "buzzUpdateFn (Some ''team2'') JNull
     = Inr (Some \<lparr>newFirstBuzzTeam = Some ''team2'', newFirstBuzzAt = TIMESTAMP\<rparr>)
   \<and> buzzUpdateFn (Some ''team2'') (JNum 7)
     = Inr (Some \<lparr>newFirstBuzzTeam = Some ''team2'', newFirstBuzzAt = TIMESTAMP\<rparr>)
   \<and> buzzUpdateFn (Some ''team2'')
        (JObj [(''firstBuzzTeam'', JStr ''team1''), (''firstBuzzAt'', JNum 1005)]) = Inr None"
  using buzz_update_total[of "Some ''team2''" JNull]
    buzz_update_total[of "Some ''team2''" "JNum 7"]
    buzz_update_total[of "Some ''team2''"
      "JObj [(''firstBuzzTeam'', JStr ''team1''), (''firstBuzzAt'', JNum 1005)]"]
  by (simp add: memberOf_def)

section \<open>The sample game\<close>

lemma sampleBank_wellFormed: "wellFormedBank sampleBank \<and> titledBank sampleBank"
  by (simp add: sampleBank_def wellFormedBank_def titledBank_def categoryShape_def
      clueTexts_def sampleClues_def pointValues_def)

lemma sampleBank_loads: "loadQuestions (Body sampleBank) = Inr sampleBank"
  using sampleBank_wellFormed loadQuestions_Inr[of "Body sampleBank" sampleBank] by blast

lemma sample_index: "buildBoardIndex sampleBank = Inr sampleIndex"
  using buildBoardIndex_total[of sampleBank] sampleBank_wellFormed
  by (auto simp: sampleIndex_def)

lemma sample_tile: "k \<in> set tileKeys \<Longrightarrow> sampleIndex k \<noteq> None"
  using tileKeys_indexed[OF _ sample_index] sampleBank_wellFormed by blast

lemma sampleHost_created:
  "createRoomAsHost (landing True True) (Body sampleBank) 4271 0 st
     = (Inr sampleHost, st(roomPath (randomCode 4271) \<mapsto> initialRoom 0))"
  by (simp add: createRoomAsHost_def sampleBank_loads sample_index sampleHost_def Let_def
      del: loadQuestions.simps)

lemma sampleQuestionRoom_opened:
  "sampleQuestionRoom =
     refUpdate [SetPhase Question, SetActiveClueKey (Some ''c2_v300''), SetFirstBuzzTeam None,
                SetFirstBuzzAt None, SetEndAtMs (Some (1000 + timerDuration (initialRoom 0) * 1000))]
       (initialRoom 0)"
  by (simp add: refUpdate_openClue sampleQuestionRoom_def initialRoom_def timerDuration_def)

section \<open>Creating a room\<close>

text \<open>
  C9. Room creation validates the question bank first. When validation fails, the
  function ends with one of the loader's errors and the store is as before: nothing is
  written. When it succeeds, the bank is well formed in the specification's sense and the
  full initial document is written at the room's path: phase board, both buzz fields
  null, both scores 0, and 25 used flags, all false. A well-formed bank whose categories
  have titles passes validation.
\<close>

theorem create_room_validation:
  "(loadQuestions resp = Inl e \<longrightarrow>
      createRoomAsHost c resp n srv st = (Inl e, st) \<and> e \<in> set loadErrors)
   \<and> (loadQuestions resp = Inr q \<longrightarrow>
      resp = Body q \<and> wellFormedBank q \<and>
      (\<exists>c'. createRoomAsHost c resp n srv st
             = (Inr c', st(roomPath (randomCode n) \<mapsto> initialRoom srv))))
   \<and> (wellFormedBank q \<and> titledBank q \<longrightarrow> loadQuestions (Body q) = Inr q)
   \<and> phase (initialRoom srv) = Board
   \<and> activeClueKey (initialRoom srv) = None
   \<and> buzz (initialRoom srv) = \<lparr>firstBuzzTeam = None, firstBuzzAt = None\<rparr>
   \<and> scoreNode (initialRoom srv) ''team1'' = Some 0
   \<and> scoreNode (initialRoom srv) ''team2'' = Some 0
   \<and> dom (teams (initialRoom srv)) = {''team1'', ''team2''}
   \<and> dom (boardUsed (initialRoom srv)) = set tileKeys
   \<and> card (dom (boardUsed (initialRoom srv))) = 25
   \<and> (\<forall>k \<in> dom (boardUsed (initialRoom srv)). boardUsed (initialRoom srv) k = Some False)"
proof -
  have fail: "loadQuestions resp = Inl e \<longrightarrow>
      createRoomAsHost c resp n srv st = (Inl e, st) \<and> e \<in> set loadErrors"
    by (simp add: createRoomAsHost_def loadQuestions_Inl)
  have ok: "loadQuestions resp = Inr q \<longrightarrow>
      resp = Body q \<and> wellFormedBank q \<and>
      (\<exists>c'. createRoomAsHost c resp n srv st
             = (Inr c', st(roomPath (randomCode n) \<mapsto> initialRoom srv)))"
  proof
    assume l: "loadQuestions resp = Inr q"
    then have w: "resp = Body q" "wellFormedBank q" by (simp_all add: loadQuestions_Inr)
    from buildBoardIndex_total[OF w(2)] obtain idx where "buildBoardIndex q = Inr idx" ..
    with l have "\<exists>c'. createRoomAsHost c resp n srv st
             = (Inr c', st(roomPath (randomCode n) \<mapsto> initialRoom srv))"
      by (simp add: createRoomAsHost_def Let_def)
    with w show "resp = Body q \<and> wellFormedBank q \<and>
      (\<exists>c'. createRoomAsHost c resp n srv st
             = (Inr c', st(roomPath (randomCode n) \<mapsto> initialRoom srv)))" by simp
  qed
  have conv: "wellFormedBank q \<and> titledBank q \<longrightarrow> loadQuestions (Body q) = Inr q"
    using loadQuestions_Inr[of "Body q" q] by blast
  have d: "dom (boardUsed (initialRoom srv)) = set tileKeys"
    by (simp add: initialRoom_def dom_makeInitialBoardState)
  have n: "card (dom (boardUsed (initialRoom srv))) = 25"
    by (simp add: initialRoom_def card_makeInitialBoardState)
  have f: "\<forall>k \<in> dom (boardUsed (initialRoom srv)). boardUsed (initialRoom srv) k = Some False"
    by (auto simp: initialRoom_def makeInitialBoardState_apply split: if_splits)
  have t: "dom (teams (initialRoom srv)) = {''team1'', ''team2''}"
    by (auto simp: initialRoom_def)
  have s: "scoreNode (initialRoom srv) ''team1'' = Some 0"
      "scoreNode (initialRoom srv) ''team2'' = Some 0"
    by (simp_all add: initialRoom_def scoreNode_def)
  have p: "phase (initialRoom srv) = Board" "activeClueKey (initialRoom srv) = None"
      "buzz (initialRoom srv) = \<lparr>firstBuzzTeam = None, firstBuzzAt = None\<rparr>"
    by (simp_all add: initialRoom_def)
  from fail ok conv d n f t s p show ?thesis by blast
qed

theorem create_room_validation_witness:
  "loadQuestions (Body sampleBank) = Inr sampleBank
   \<and> wellFormedBank sampleBank
   \<and> fst (createRoomAsHost (landing True True) (Body sampleBank) 4271 0 Map.empty) = Inr sampleHost
   \<and> snd (createRoomAsHost (landing True True) (Body sampleBank) 4271 0 Map.empty)
        (roomPath (randomCode 4271)) = Some (initialRoom 0)
   \<and> loadQuestions (Body \<lparr>categories = Some []\<rparr>)
        = Inl (Error ''questions.json must contain exactly 5 categories'')
   \<and> createRoomAsHost (landing True True) (Body \<lparr>categories = Some []\<rparr>) 4271 0 Map.empty
        = (Inl (Error ''questions.json must contain exactly 5 categories''), Map.empty)
   \<and> card (dom (boardUsed (initialRoom 0))) = 25
   \<and> boardUsed (initialRoom 0) ''c2_v300'' = Some False"
proof -
  have a: "loadQuestions (Body sampleBank) = Inr sampleBank" by (rule sampleBank_loads)
  have b: "loadQuestions (Body \<lparr>categories = Some []\<rparr>)
        = Inl (Error ''questions.json must contain exactly 5 categories'')" by simp
  have k: "''c2_v300'' \<in> dom (boardUsed (initialRoom 0))"
    by (simp add: initialRoom_def dom_makeInitialBoardState tileKeys_eq)
  from create_room_validation[where resp = "Body sampleBank" and q = sampleBank
      and c = "landing True True" and n = 4271 and srv = 0 and st = Map.empty] a
  have 1: "wellFormedBank sampleBank"
    and 2: "\<exists>c'. createRoomAsHost (landing True True) (Body sampleBank) 4271 0 Map.empty
             = (Inr c', Map.empty(roomPath (randomCode 4271) \<mapsto> initialRoom 0))"
    and 3: "card (dom (boardUsed (initialRoom 0))) = 25"
    and 4: "\<forall>k \<in> dom (boardUsed (initialRoom 0)). boardUsed (initialRoom 0) k = Some False"
    by blast+
  from 2 have 5: "fst (createRoomAsHost (landing True True) (Body sampleBank) 4271 0 Map.empty)
      = Inr sampleHost"
    and 6: "snd (createRoomAsHost (landing True True) (Body sampleBank) 4271 0 Map.empty)
        (roomPath (randomCode 4271)) = Some (initialRoom 0)"
    by (auto simp: sampleHost_created)
  from create_room_validation[where resp = "Body \<lparr>categories = Some []\<rparr>"
      and e = "Error ''questions.json must contain exactly 5 categories''"
      and c = "landing True True" and n = 4271 and srv = 0 and st = Map.empty] b
  have 7: "createRoomAsHost (landing True True) (Body \<lparr>categories = Some []\<rparr>) 4271 0 Map.empty
        = (Inl (Error ''questions.json must contain exactly 5 categories''), Map.empty)"
    by blast
  from 4 k have 8: "boardUsed (initialRoom 0) ''c2_v300'' = Some False" by blast
  from a b 1 3 5 6 7 8 show ?thesis by blast
qed

section \<open>The requests of the operations\<close>

lemma refUpdate_return:
  "refUpdate [SetBoardUsed k True, SetPhase Board, SetActiveClueKey None, SetEndAtMs None,
              SetFirstBuzzTeam None, SetFirstBuzzAt None] r =
     r\<lparr>boardUsed := (boardUsed r)(k \<mapsto> True), phase := Board, activeClueKey := None,
       timer := (timer r)\<lparr>endAtMs := None\<rparr>,
       buzz := \<lparr>firstBuzzTeam = None, firstBuzzAt = None\<rparr>\<rparr>"
  by (simp add: refUpdate_def)

lemma onHostTileClick_opens:
  "roomData c = Some r \<Longrightarrow> boardIndex c = Some idx \<Longrightarrow> idx k = Some cl \<Longrightarrow> phase r = Board
     \<Longrightarrow> boardUsed r k \<noteq> Some True
     \<Longrightarrow> onHostTileClick c now k =
           Inr (c, Some (Update [SetPhase Question, SetActiveClueKey (Some k),
                  SetFirstBuzzTeam None, SetFirstBuzzAt None,
                  SetEndAtMs (Some (now + timerDuration r * 1000))]))"
  by (simp add: onHostTileClick_def openClueModal_def Let_def)

lemma onHostTileClick_ignores:
  "roomData c = Some r \<Longrightarrow> phase r \<noteq> Board \<or> boardUsed r k = Some True
     \<Longrightarrow> onHostTileClick c now k = Inr (c, None)"
  by (auto simp: onHostTileClick_def)

lemma clueCardHandler_request:
  "clueCardHandler c = (c', Some q) \<Longrightarrow>
     \<exists>room. mode c = Some Host \<and> roomData c = Some room \<and> phase room = Question \<and>
       q = Update [SetPhase Answer]"
  by (auto simp: clueCardHandler_def split: if_splits option.splits)

lemma returnToBoard_request:
  "returnToBoardAndMarkUsed c = (c', Some q) \<Longrightarrow>
     \<exists>room k. mode c = Some Host \<and> roomData c = Some room \<and> activeClueKey room = Some k \<and>
       k \<noteq> [] \<and> c' = closeClueModal c \<and>
       q = Update [SetBoardUsed k True, SetPhase Board, SetActiveClueKey None, SetEndAtMs None,
                   SetFirstBuzzTeam None, SetFirstBuzzAt None]"
  by (auto simp: returnToBoardAndMarkUsed_def split: if_splits option.splits)

lemma returnToBoard_returns:
  "mode c = Some Host \<Longrightarrow> roomData c = Some r \<Longrightarrow> activeClueKey r = Some k \<Longrightarrow> k \<noteq> []
     \<Longrightarrow> returnToBoardAndMarkUsed c =
           (closeClueModal c,
            Some (Update [SetBoardUsed k True, SetPhase Board, SetActiveClueKey None,
                          SetEndAtMs None, SetFirstBuzzTeam None, SetFirstBuzzAt None]))"
  by (simp add: returnToBoardAndMarkUsed_def)

lemma resetBuzz_request:
  "resetBuzz c = Some q \<Longrightarrow> q = Update [SetFirstBuzzTeam None, SetFirstBuzzAt None]"
  by (auto simp: resetBuzz_def split: if_splits)

lemma resetTimer_request: "resetTimer c now = Inr (Some q) \<Longrightarrow> \<exists>e. q = Update [SetEndAtMs e]"
  by (auto simp: resetTimer_def split: if_splits option.splits)

lemma adjustScore_request: "adjustScore c tId d = Some q \<Longrightarrow> q = ScoreTransaction tId d"
  by (auto simp: adjustScore_def split: if_splits)

lemma playerBuzz_request:
  "playerBuzz c now = Some q \<Longrightarrow>
     q = BuzzTransaction (teamId c) \<and>
     (\<exists>room e. roomData c = Some room \<and> phase room = Question \<and>
        endAtMs (timer room) = Some e \<and> e \<noteq> 0 \<and> now < e)"
  by (auto simp: playerBuzz_def split: if_splits option.splits)

lemma buzzCommit_frame:
  "phase (buzzCommit tid srv r) = phase r \<and>
   activeClueKey (buzzCommit tid srv r) = activeClueKey r \<and>
   boardUsed (buzzCommit tid srv r) = boardUsed r"
  by (cases "truthyStr (firstBuzzTeam (buzz r))") (simp_all add: buzzCommit_set buzzCommit_unset)

lemma scoreCommit_frame:
  "phase (scoreCommit tId d r) = phase r \<and>
   activeClueKey (scoreCommit tId d r) = activeClueKey r \<and>
   boardUsed (scoreCommit tId d r) = boardUsed r"
  by (simp add: scoreCommit_def Let_def)

text \<open>What one step does to the phase, the active clue and the used flags.\<close>

lemma roomStep_effect:
  assumes "roomStep r r'"
  shows "(\<exists>k e. phase r = Board \<and> k \<noteq> [] \<and> boardUsed r' = boardUsed r \<and>
            phase r' = Question \<and> activeClueKey r' = Some k)
       \<or> (phase r = Question \<and> r' = r\<lparr>phase := Answer\<rparr>)
       \<or> (\<exists>k. activeClueKey r = Some k \<and> phase r' = Board \<and> activeClueKey r' = None \<and>
              boardUsed r' = (boardUsed r)(k \<mapsto> True))
       \<or> (phase r' = phase r \<and> activeClueKey r' = activeClueKey r \<and> boardUsed r' = boardUsed r)"
  using assms
proof cases
  case (openClue c idx bank now k c' q srv)
  from openClue obtain cl where "idx k = Some cl"
    by (auto simp: onHostTileClick_def split: option.splits if_splits)
  with openClue have "k \<noteq> []" by (auto dest: buildBoardIndex_keys)
  with openClue show ?thesis
    by (auto dest!: onHostTileClick_request simp: refUpdate_openClue)
next
  case (revealAnswer c c' q srv)
  then show ?thesis by (auto dest!: clueCardHandler_request simp: refUpdate_def)
next
  case (returnToBoard c c' q srv)
  then show ?thesis by (auto dest!: returnToBoard_request simp: refUpdate_return)
next
  case (buzzReset c q srv)
  then show ?thesis by (auto dest!: resetBuzz_request simp: refUpdate_def)
next
  case (timerReset c now q srv)
  then show ?thesis by (auto dest!: resetTimer_request simp: refUpdate_def)
next
  case (scoreAdjust c tId delta q srv)
  then show ?thesis by (auto dest!: adjustScore_request simp: scoreCommit_frame)
next
  case (buzzAttempt c now q srv)
  then show ?thesis by (auto dest!: playerBuzz_request simp: buzzCommit_frame)
next
  case (playerJoin pid entry)
  then show ?thesis by simp
qed

lemma reachable_invariant:
  "reachable r \<Longrightarrow>
     (phase r = Board \<longleftrightarrow> activeClueKey r = None) \<and>
     (\<forall>k. activeClueKey r = Some k \<longrightarrow> k \<noteq> []) \<and>
     (\<forall>k \<in> set tileKeys. boardUsed r k \<noteq> None)"
proof (induction rule: reachable.induct)
  case (created srv)
  show ?case by (simp add: initialRoom_def makeInitialBoardState_apply)
next
  case (step r r')
  from roomStep_effect[OF step.hyps(2)] step.IH show ?case
    by (elim disjE exE conjE) auto
qed

lemma roomStep_keeps_used:
  "roomStep r r' \<Longrightarrow> boardUsed r k = Some True \<Longrightarrow> boardUsed r' k = Some True"
  by (drule roomStep_effect) auto

section \<open>Steps of the sample game\<close>

lemma sampleHost_fields:
  "mode sampleHost = Some Host" "boardIndex sampleHost = Some sampleIndex"
  "roomData sampleHost = None" "activeClue sampleHost = None"
  "clueCardOnclick sampleHost = False"
  by (simp_all add: sampleHost_def landing_def)

lemma initialRoom_unused: "k \<in> set tileKeys \<Longrightarrow> boardUsed (initialRoom srv) k = Some False"
  by (simp add: initialRoom_def makeInitialBoardState_apply)

lemma c2_v300_tile: "''c2_v300'' \<in> set tileKeys"
  by (simp add: tileKeys_eq)

lemma c0_v100_tile: "''c0_v100'' \<in> set tileKeys"
  by (simp add: tileKeys_eq)

lemma sample_open_click:
  "onHostTileClick (sampleHost\<lparr>roomData := Some (initialRoom 0)\<rparr>) 1000 ''c2_v300'' =
     Inr (sampleHost\<lparr>roomData := Some (initialRoom 0)\<rparr>,
          Some (Update [SetPhase Question, SetActiveClueKey (Some ''c2_v300''),
                  SetFirstBuzzTeam None, SetFirstBuzzAt None,
                  SetEndAtMs (Some (1000 + timerDuration (initialRoom 0) * 1000))]))"
proof -
  from sample_tile[OF c2_v300_tile] obtain cl where "sampleIndex ''c2_v300'' = Some cl" by auto
  then show ?thesis
    by (intro onHostTileClick_opens[where idx = sampleIndex and cl = cl])
      (simp_all add: sampleHost_fields initialRoom_unused[OF c2_v300_tile],
        simp add: initialRoom_def)
qed

lemma sample_open_step: "roomStep (initialRoom 0) sampleQuestionRoom"
proof -
  have "roomStep (initialRoom 0)
      (commit 0 (Update [SetPhase Question, SetActiveClueKey (Some ''c2_v300''),
                  SetFirstBuzzTeam None, SetFirstBuzzAt None,
                  SetEndAtMs (Some (1000 + timerDuration (initialRoom 0) * 1000))]) (initialRoom 0))"
    by (rule roomStep.openClue[where c = "sampleHost\<lparr>roomData := Some (initialRoom 0)\<rparr>"
          and idx = sampleIndex and bank = sampleBank, OF _ _ sample_index sample_open_click])
      (simp_all add: sampleHost_fields)
  then show ?thesis by (simp add: sampleQuestionRoom_opened)
qed

lemma sampleQuestionRoom_reachable: "reachable sampleQuestionRoom"
  by (rule reachable.step[OF reachable.created sample_open_step])

lemma sampleQuestionRoom_fields:
  "phase sampleQuestionRoom = Question" "activeClueKey sampleQuestionRoom = Some ''c2_v300''"
  "buzz sampleQuestionRoom = \<lparr>firstBuzzTeam = None, firstBuzzAt = None\<rparr>"
  "timer sampleQuestionRoom = \<lparr>durationSec = Some 20, endAtMs = Some 21000\<rparr>"
  by (simp_all add: sampleQuestionRoom_def initialRoom_def)

lemma sample_return_update:
  "refUpdate [SetBoardUsed ''c2_v300'' True, SetPhase Board, SetActiveClueKey None,
              SetEndAtMs None, SetFirstBuzzTeam None, SetFirstBuzzAt None] sampleQuestionRoom
     = sampleUsedRoom"
  by (simp add: refUpdate_return sampleQuestionRoom_def sampleUsedRoom_def initialRoom_def)

lemma sample_return_update_answer:
  "refUpdate [SetBoardUsed ''c2_v300'' True, SetPhase Board, SetActiveClueKey None,
              SetEndAtMs None, SetFirstBuzzTeam None, SetFirstBuzzAt None]
     (sampleQuestionRoom\<lparr>phase := Answer\<rparr>)
     = sampleUsedRoom"
  by (simp add: refUpdate_return sampleQuestionRoom_def sampleUsedRoom_def initialRoom_def)

lemma sample_second_step: "roomStep sampleUsedRoom sampleSecondRoom"
proof -
  let ?c = "sampleHost\<lparr>roomData := Some sampleUsedRoom\<rparr>"
  from sample_tile[OF c0_v100_tile] obtain cl where cl: "sampleIndex ''c0_v100'' = Some cl" by auto
  have "boardUsed sampleUsedRoom ''c0_v100'' = Some False"
    using initialRoom_unused[OF c0_v100_tile, of 0] by (simp add: sampleUsedRoom_def initialRoom_def)
  then have click: "onHostTileClick ?c 30000 ''c0_v100'' =
     Inr (?c, Some (Update [SetPhase Question, SetActiveClueKey (Some ''c0_v100''),
                  SetFirstBuzzTeam None, SetFirstBuzzAt None,
                  SetEndAtMs (Some (30000 + timerDuration sampleUsedRoom * 1000))]))"
    using cl
    by (intro onHostTileClick_opens[where idx = sampleIndex and cl = cl])
      (simp_all add: sampleHost_fields sampleUsedRoom_def initialRoom_def)
  have "roomStep sampleUsedRoom
      (commit 0 (Update [SetPhase Question, SetActiveClueKey (Some ''c0_v100''),
                  SetFirstBuzzTeam None, SetFirstBuzzAt None,
                  SetEndAtMs (Some (30000 + timerDuration sampleUsedRoom * 1000))]) sampleUsedRoom)"
    by (rule roomStep.openClue[where c = ?c and idx = sampleIndex and bank = sampleBank,
          OF _ _ sample_index click]) (simp_all add: sampleHost_fields)
  then show ?thesis
    by (simp add: refUpdate_openClue sampleSecondRoom_def sampleUsedRoom_def initialRoom_def
        timerDuration_def)
qed

section \<open>The room state machine\<close>

lemma buzzCommit_timer: "timer (buzzCommit tid srv r) = timer r"
  by (cases "truthyStr (firstBuzzTeam (buzz r))") (simp_all add: buzzCommit_set buzzCommit_unset)

text \<open>No step changes the duration of the timer.\<close>

lemma roomStep_duration:
  assumes "roomStep r r'"
  shows "durationSec (timer r') = durationSec (timer r)"
  using assms
proof cases
  case (openClue c idx bank now k c' q srv)
  then show ?thesis by (auto dest!: onHostTileClick_request simp: refUpdate_openClue)
next
  case (revealAnswer c c' q srv)
  then show ?thesis by (auto dest!: clueCardHandler_request simp: refUpdate_def)
next
  case (returnToBoard c c' q srv)
  then show ?thesis by (auto dest!: returnToBoard_request simp: refUpdate_return)
next
  case (buzzReset c q srv)
  then show ?thesis by (auto dest!: resetBuzz_request simp: refUpdate_def)
next
  case (timerReset c now q srv)
  then show ?thesis by (auto dest!: resetTimer_request simp: refUpdate_def)
next
  case (scoreAdjust c tId delta q srv)
  then show ?thesis by (auto dest!: adjustScore_request simp: scoreCommit_def Let_def)
next
  case (buzzAttempt c now q srv)
  then show ?thesis by (auto dest!: playerBuzz_request simp: buzzCommit_timer)
next
  case (playerJoin pid entry)
  then show ?thesis by simp
qed

lemma reachable_duration: "reachable r \<Longrightarrow> durationSec (timer r) = Some 20"
proof (induction rule: reachable.induct)
  case (created srv)
  show ?case by (simp add: initialRoom_def)
next
  case (step r r')
  then show ?case by (simp add: roomStep_duration)
qed

text \<open>
  C2. Opening a clue. The host's snapshot is the room \<open>r\<close> and the key \<open>k\<close> is a clue
  of the host's board index (every tile key is, \<open>tileKeys_indexed\<close>). When the phase is
  board and the key is not marked used, the click sends one update, which sets the phase
  to question, the active clue to the key, both buzz fields to null and the deadline to
  now plus the room's \<^verbatim>\<open>durationSec\<close> (20 when the room has none) times 1000, and nothing
  else; in a reachable room the duration is 20 seconds. In every other case the click
  sends nothing. So a click that sends a request found the phase board and the key not
  used; in a reachable room "not used" is the flag false.
\<close>

theorem open_clue:
  assumes "roomData c = Some r" and "boardIndex c = Some idx" and "idx k \<noteq> None"
  shows "(phase r = Board \<and> boardUsed r k \<noteq> Some True \<longrightarrow>
      (\<exists>q. onHostTileClick c now k = Inr (c, Some q) \<and>
         commit srv q r =
           r\<lparr>phase := Question, activeClueKey := Some k,
             buzz := \<lparr>firstBuzzTeam = None, firstBuzzAt = None\<rparr>,
             timer := (timer r)\<lparr>endAtMs :=
               Some (now + (case durationSec (timer r) of None \<Rightarrow> 20 | Some d \<Rightarrow> d) * 1000)\<rparr>\<rparr> \<and>
         (\<forall>d. durationSec (timer r) = Some d \<longrightarrow>
            endAtMs (timer (commit srv q r)) = Some (now + d * 1000) \<and>
            durationSec (timer (commit srv q r)) = Some d) \<and>
         (reachable r \<longrightarrow> endAtMs (timer (commit srv q r)) = Some (now + 20 * 1000))))
   \<and> (\<not> (phase r = Board \<and> boardUsed r k \<noteq> Some True) \<longrightarrow>
        onHostTileClick c now k = Inr (c, None))
   \<and> (\<forall>c' q. onHostTileClick c now k = Inr (c', Some q) \<longrightarrow>
        phase r = Board \<and> boardUsed r k \<noteq> Some True)
   \<and> (reachable r \<and> k \<in> set tileKeys \<longrightarrow>
        (boardUsed r k \<noteq> Some True \<longleftrightarrow> boardUsed r k = Some False))"
proof -
  from assms(3) obtain cl where cl: "idx k = Some cl" by auto
  let ?q = "Update [SetPhase Question, SetActiveClueKey (Some k), SetFirstBuzzTeam None,
      SetFirstBuzzAt None, SetEndAtMs (Some (now + timerDuration r * 1000))]"
  let ?r' = "r\<lparr>phase := Question, activeClueKey := Some k,
             buzz := \<lparr>firstBuzzTeam = None, firstBuzzAt = None\<rparr>,
             timer := (timer r)\<lparr>endAtMs :=
               Some (now + (case durationSec (timer r) of None \<Rightarrow> 20 | Some d \<Rightarrow> d) * 1000)\<rparr>\<rparr>"
  have c: "commit srv ?q r = ?r'" by (simp add: refUpdate_openClue timerDuration_def)
  have 1: "phase r = Board \<and> boardUsed r k \<noteq> Some True \<longrightarrow>
      (\<exists>q. onHostTileClick c now k = Inr (c, Some q) \<and>
         commit srv q r = ?r' \<and>
         (\<forall>d. durationSec (timer r) = Some d \<longrightarrow>
            endAtMs (timer (commit srv q r)) = Some (now + d * 1000) \<and>
            durationSec (timer (commit srv q r)) = Some d) \<and>
         (reachable r \<longrightarrow> endAtMs (timer (commit srv q r)) = Some (now + 20 * 1000)))"
  proof
    assume p: "phase r = Board \<and> boardUsed r k \<noteq> Some True"
    with assms cl have o: "onHostTileClick c now k = Inr (c, Some ?q)"
      by (simp add: onHostTileClick_opens[where idx = idx and cl = cl])
    have d: "\<forall>d. durationSec (timer r) = Some d \<longrightarrow>
            endAtMs (timer (commit srv ?q r)) = Some (now + d * 1000) \<and>
            durationSec (timer (commit srv ?q r)) = Some d"
      unfolding c by simp
    have e: "reachable r \<longrightarrow> endAtMs (timer (commit srv ?q r)) = Some (now + 20 * 1000)"
      unfolding c by (auto dest: reachable_duration)
    from o c d e show "\<exists>q. onHostTileClick c now k = Inr (c, Some q) \<and>
         commit srv q r = ?r' \<and>
         (\<forall>d. durationSec (timer r) = Some d \<longrightarrow>
            endAtMs (timer (commit srv q r)) = Some (now + d * 1000) \<and>
            durationSec (timer (commit srv q r)) = Some d) \<and>
         (reachable r \<longrightarrow> endAtMs (timer (commit srv q r)) = Some (now + 20 * 1000))"
      by blast
  qed
  have 2: "\<not> (phase r = Board \<and> boardUsed r k \<noteq> Some True) \<longrightarrow>
        onHostTileClick c now k = Inr (c, None)"
    using assms(1) onHostTileClick_ignores[of c r k now] by blast
  have 3: "\<forall>c' q. onHostTileClick c now k = Inr (c', Some q) \<longrightarrow>
        phase r = Board \<and> boardUsed r k \<noteq> Some True"
    using assms(1) by (auto dest: onHostTileClick_request)
  have 4: "reachable r \<and> k \<in> set tileKeys \<longrightarrow>
        (boardUsed r k \<noteq> Some True \<longleftrightarrow> boardUsed r k = Some False)"
  proof
    assume "reachable r \<and> k \<in> set tileKeys"
    then have "boardUsed r k \<noteq> None" by (auto dest: reachable_invariant)
    then show "(boardUsed r k \<noteq> Some True) = (boardUsed r k = Some False)" by auto
  qed
  from 1 2 3 4 show ?thesis by blast
qed

theorem open_clue_witness:
  "roomData (sampleHost\<lparr>roomData := Some (initialRoom 0)\<rparr>) = Some (initialRoom 0)
   \<and> boardIndex (sampleHost\<lparr>roomData := Some (initialRoom 0)\<rparr>) = Some sampleIndex
   \<and> sampleIndex ''c2_v300'' \<noteq> None
   \<and> phase (initialRoom 0) = Board
   \<and> boardUsed (initialRoom 0) ''c2_v300'' = Some False
   \<and> durationSec (timer (initialRoom 0)) = Some 20
   \<and> (\<exists>q. onHostTileClick (sampleHost\<lparr>roomData := Some (initialRoom 0)\<rparr>) 1000 ''c2_v300''
             = Inr (sampleHost\<lparr>roomData := Some (initialRoom 0)\<rparr>, Some q)
          \<and> commit 0 q (initialRoom 0) = sampleQuestionRoom
          \<and> endAtMs (timer (commit 0 q (initialRoom 0))) = Some 21000)
   \<and> durationSec (timer sampleSlowRoom) = Some 30
   \<and> (\<exists>q. onHostTileClick (sampleHost\<lparr>roomData := Some sampleSlowRoom\<rparr>) 1000 ''c2_v300''
             = Inr (sampleHost\<lparr>roomData := Some sampleSlowRoom\<rparr>, Some q)
          \<and> endAtMs (timer (commit 0 q sampleSlowRoom)) = Some 31000)
   \<and> onHostTileClick (sampleHost\<lparr>roomData := Some sampleQuestionRoom\<rparr>) 2000 ''c2_v300''
        = Inr (sampleHost\<lparr>roomData := Some sampleQuestionRoom\<rparr>, None)"
proof -
  let ?c = "sampleHost\<lparr>roomData := Some (initialRoom 0)\<rparr>"
  let ?d = "sampleHost\<lparr>roomData := Some sampleQuestionRoom\<rparr>"
  let ?s = "sampleHost\<lparr>roomData := Some sampleSlowRoom\<rparr>"
  have h: "roomData ?c = Some (initialRoom 0)" "boardIndex ?c = Some sampleIndex"
      "roomData ?d = Some sampleQuestionRoom" "boardIndex ?d = Some sampleIndex"
      "roomData ?s = Some sampleSlowRoom" "boardIndex ?s = Some sampleIndex"
    by (simp_all add: sampleHost_fields)
  have i: "sampleIndex ''c2_v300'' \<noteq> None" by (rule sample_tile[OF c2_v300_tile])
  have p: "phase (initialRoom 0) = Board" "durationSec (timer (initialRoom 0)) = Some 20"
    by (simp_all add: initialRoom_def)
  have u: "boardUsed (initialRoom 0) ''c2_v300'' = Some False"
    by (rule initialRoom_unused[OF c2_v300_tile])
  have ps: "phase sampleSlowRoom = Board" "durationSec (timer sampleSlowRoom) = Some 30"
    "boardUsed sampleSlowRoom ''c2_v300'' \<noteq> Some True"
    using u by (simp_all add: sampleSlowRoom_def initialRoom_def)
  have e: "(initialRoom 0)\<lparr>phase := Question, activeClueKey := Some ''c2_v300'',
             buzz := \<lparr>firstBuzzTeam = None, firstBuzzAt = None\<rparr>,
             timer := (timer (initialRoom 0))
               \<lparr>endAtMs := Some (1000 +
                  (case durationSec (timer (initialRoom 0)) of None \<Rightarrow> 20 | Some d \<Rightarrow> d) * 1000)\<rparr>\<rparr>
           = sampleQuestionRoom"
    by (simp add: sampleQuestionRoom_def initialRoom_def)
  from open_clue[OF h(1) h(2) i, where now = 1000 and srv = 0] p u
  obtain q where q: "onHostTileClick ?c 1000 ''c2_v300'' = Inr (?c, Some q)"
    "commit 0 q (initialRoom 0) = (initialRoom 0)\<lparr>phase := Question, activeClueKey := Some ''c2_v300'',
             buzz := \<lparr>firstBuzzTeam = None, firstBuzzAt = None\<rparr>,
             timer := (timer (initialRoom 0))
               \<lparr>endAtMs := Some (1000 +
                  (case durationSec (timer (initialRoom 0)) of None \<Rightarrow> 20 | Some d \<Rightarrow> d) * 1000)\<rparr>\<rparr>"
    "\<forall>d. durationSec (timer (initialRoom 0)) = Some d \<longrightarrow>
       endAtMs (timer (commit 0 q (initialRoom 0))) = Some (1000 + d * 1000) \<and>
       durationSec (timer (commit 0 q (initialRoom 0))) = Some d"
    by auto
  from q(3) p(2) have "endAtMs (timer (commit 0 q (initialRoom 0))) = Some 21000" by simp
  with q(1) q(2) e
  have 1: "\<exists>q. onHostTileClick ?c 1000 ''c2_v300'' = Inr (?c, Some q)
          \<and> commit 0 q (initialRoom 0) = sampleQuestionRoom
          \<and> endAtMs (timer (commit 0 q (initialRoom 0))) = Some 21000"
    by auto
  from open_clue[OF h(5) h(6) i, where now = 1000 and srv = 0] ps
  obtain q' where q': "onHostTileClick ?s 1000 ''c2_v300'' = Inr (?s, Some q')"
    "\<forall>d. durationSec (timer sampleSlowRoom) = Some d \<longrightarrow>
       endAtMs (timer (commit 0 q' sampleSlowRoom)) = Some (1000 + d * 1000) \<and>
       durationSec (timer (commit 0 q' sampleSlowRoom)) = Some d"
    by auto
  from q'(2) ps(2) have "endAtMs (timer (commit 0 q' sampleSlowRoom)) = Some 31000" by simp
  with q'(1)
  have 3: "\<exists>q. onHostTileClick ?s 1000 ''c2_v300'' = Inr (?s, Some q)
          \<and> endAtMs (timer (commit 0 q sampleSlowRoom)) = Some 31000"
    by auto
  from open_clue[OF h(3) h(4) i, where now = 2000 and srv = 0]
  have 2: "onHostTileClick ?d 2000 ''c2_v300'' = Inr (?d, None)"
    by (simp add: sampleQuestionRoom_fields)
  from h i p u ps(2) 1 2 3 show ?thesis by blast
qed

text \<open>
  C4. Returning to the board. For the host whose snapshot \<open>r\<close> has an active clue \<open>k\<close>,
  whatever the phase, the return sends one update, which marks \<open>k\<close> used, sets the phase
  to board, and sets the active clue, the deadline and both buzz fields to null. In a
  reachable room whose phase is question or answer there is such an active clue.
\<close>

theorem return_to_board:
  "(mode c = Some Host \<and> roomData c = Some r \<and> activeClueKey r = Some k \<and> k \<noteq> [] \<longrightarrow>
      (\<exists>q. returnToBoardAndMarkUsed c = (closeClueModal c, Some q) \<and>
         commit srv q r =
           r\<lparr>boardUsed := (boardUsed r)(k \<mapsto> True), phase := Board, activeClueKey := None,
             timer := (timer r)\<lparr>endAtMs := None\<rparr>,
             buzz := \<lparr>firstBuzzTeam = None, firstBuzzAt = None\<rparr>\<rparr>))
   \<and> (reachable r \<and> phase r \<noteq> Board \<longrightarrow> (\<exists>k'. activeClueKey r = Some k' \<and> k' \<noteq> []))"
proof (intro conjI impI)
  assume "mode c = Some Host \<and> roomData c = Some r \<and> activeClueKey r = Some k \<and> k \<noteq> []"
  then show "\<exists>q. returnToBoardAndMarkUsed c = (closeClueModal c, Some q) \<and>
         commit srv q r =
           r\<lparr>boardUsed := (boardUsed r)(k \<mapsto> True), phase := Board, activeClueKey := None,
             timer := (timer r)\<lparr>endAtMs := None\<rparr>,
             buzz := \<lparr>firstBuzzTeam = None, firstBuzzAt = None\<rparr>\<rparr>"
    by (simp add: returnToBoard_returns[where r = r and k = k] refUpdate_return)
next
  assume "reachable r \<and> phase r \<noteq> Board"
  then show "\<exists>k'. activeClueKey r = Some k' \<and> k' \<noteq> []"
    by (auto dest: reachable_invariant)
qed

theorem return_to_board_witness:
  "reachable sampleQuestionRoom
   \<and> phase sampleQuestionRoom = Question
   \<and> activeClueKey sampleQuestionRoom = Some ''c2_v300''
   \<and> (\<exists>q. returnToBoardAndMarkUsed (sampleHost\<lparr>roomData := Some sampleQuestionRoom\<rparr>)
             = (closeClueModal (sampleHost\<lparr>roomData := Some sampleQuestionRoom\<rparr>), Some q)
          \<and> commit 0 q sampleQuestionRoom = sampleUsedRoom)
   \<and> (\<exists>q. returnToBoardAndMarkUsed
               (sampleHost\<lparr>roomData := Some (sampleQuestionRoom\<lparr>phase := Answer\<rparr>)\<rparr>)
             = (closeClueModal
                  (sampleHost\<lparr>roomData := Some (sampleQuestionRoom\<lparr>phase := Answer\<rparr>)\<rparr>), Some q)
          \<and> commit 0 q (sampleQuestionRoom\<lparr>phase := Answer\<rparr>) = sampleUsedRoom)
   \<and> boardUsed sampleUsedRoom ''c2_v300'' = Some True
   \<and> phase sampleUsedRoom = Board \<and> activeClueKey sampleUsedRoom = None
   \<and> endAtMs (timer sampleUsedRoom) = None
   \<and> buzz sampleUsedRoom = \<lparr>firstBuzzTeam = None, firstBuzzAt = None\<rparr>"
proof -
  let ?c = "sampleHost\<lparr>roomData := Some sampleQuestionRoom\<rparr>"
  let ?a = "sampleQuestionRoom\<lparr>phase := Answer\<rparr>"
  let ?d = "sampleHost\<lparr>roomData := Some ?a\<rparr>"
  have e1: "sampleQuestionRoom\<lparr>boardUsed := (boardUsed sampleQuestionRoom)(''c2_v300'' \<mapsto> True),
      phase := Board, activeClueKey := None,
      timer := (timer sampleQuestionRoom)\<lparr>endAtMs := None\<rparr>,
      buzz := \<lparr>firstBuzzTeam = None, firstBuzzAt = None\<rparr>\<rparr> = sampleUsedRoom"
    by (simp add: sampleQuestionRoom_def sampleUsedRoom_def initialRoom_def)
  have e2: "?a\<lparr>boardUsed := (boardUsed ?a)(''c2_v300'' \<mapsto> True),
      phase := Board, activeClueKey := None,
      timer := (timer ?a)\<lparr>endAtMs := None\<rparr>,
      buzz := \<lparr>firstBuzzTeam = None, firstBuzzAt = None\<rparr>\<rparr> = sampleUsedRoom"
    by (simp add: sampleQuestionRoom_def sampleUsedRoom_def initialRoom_def)
  from return_to_board[of ?c sampleQuestionRoom "''c2_v300''" 0] e1
  have 1: "\<exists>q. returnToBoardAndMarkUsed ?c = (closeClueModal ?c, Some q)
          \<and> commit 0 q sampleQuestionRoom = sampleUsedRoom"
    by (simp add: sampleHost_fields sampleQuestionRoom_fields)
  from return_to_board[of ?d ?a "''c2_v300''" 0] e2
  have 2: "\<exists>q. returnToBoardAndMarkUsed ?d = (closeClueModal ?d, Some q)
          \<and> commit 0 q ?a = sampleUsedRoom"
    by (simp add: sampleHost_fields sampleQuestionRoom_fields)
  have 3: "boardUsed sampleUsedRoom ''c2_v300'' = Some True"
    "phase sampleUsedRoom = Board" "activeClueKey sampleUsedRoom = None"
    "endAtMs (timer sampleUsedRoom) = None"
    "buzz sampleUsedRoom = \<lparr>firstBuzzTeam = None, firstBuzzAt = None\<rparr>"
    by (simp_all add: sampleUsedRoom_def initialRoom_def)
  from sampleQuestionRoom_reachable sampleQuestionRoom_fields 1 2 3 show ?thesis by blast
qed

text \<open>
  C6. In every room reachable from the initial document by the core operations, the
  active clue key is non-null exactly when the phase is question or answer, that is,
  exactly when the phase is not board.
\<close>

theorem phase_clue_coupling:
  "reachable r \<Longrightarrow>
     (activeClueKey r \<noteq> None \<longleftrightarrow> phase r = Question \<or> phase r = Answer) \<and>
     (activeClueKey r \<noteq> None \<longleftrightarrow> phase r \<noteq> Board)"
proof -
  assume "reachable r"
  then have "phase r = Board \<longleftrightarrow> activeClueKey r = None" by (auto dest: reachable_invariant)
  then show ?thesis by (cases "phase r") auto
qed

theorem phase_clue_coupling_witness:
  "reachable (initialRoom 0) \<and> activeClueKey (initialRoom 0) = None \<and> phase (initialRoom 0) = Board
   \<and> reachable sampleQuestionRoom \<and> activeClueKey sampleQuestionRoom \<noteq> None
   \<and> phase sampleQuestionRoom = Question"
proof -
  have a: "reachable (initialRoom 0)" by (rule reachable.created)
  have p: "phase (initialRoom 0) = Board" by (simp add: initialRoom_def)
  from phase_clue_coupling[OF a] p have 1: "activeClueKey (initialRoom 0) = None" by simp
  have q: "phase sampleQuestionRoom = Question" by (rule sampleQuestionRoom_fields)
  from phase_clue_coupling[OF sampleQuestionRoom_reachable] q
  have 2: "activeClueKey sampleQuestionRoom \<noteq> None" by simp
  from a p 1 q 2 sampleQuestionRoom_reachable show ?thesis by blast
qed

text \<open>
  C7. Board monotonicity. A used flag that is true stays true in every room that any
  sequence of core operations leads to: no step resets it.
\<close>

theorem board_monotone:
  "roomStep\<^sup>*\<^sup>* r r' \<Longrightarrow> boardUsed r k = Some True \<Longrightarrow> boardUsed r' k = Some True"
  by (induction rule: rtranclp_induct) (auto dest: roomStep_keeps_used)

theorem board_monotone_witness:
  "boardUsed sampleUsedRoom ''c2_v300'' = Some True
   \<and> roomStep\<^sup>*\<^sup>* sampleUsedRoom sampleSecondRoom
   \<and> boardUsed sampleSecondRoom ''c2_v300'' = Some True"
proof -
  have u: "boardUsed sampleUsedRoom ''c2_v300'' = Some True"
    by (simp add: sampleUsedRoom_def initialRoom_def)
  have s: "roomStep\<^sup>*\<^sup>* sampleUsedRoom sampleSecondRoom"
    using sample_second_step by blast
  from board_monotone[OF s u] u s show ?thesis by blast
qed

section \<open>The player's client\<close>

lemma updatePlayerBuzzButton_enabled:
  "mode c = Some Player \<Longrightarrow> roomData c = Some r \<Longrightarrow>
     \<not> btnBuzzDisabled (updatePlayerBuzzButton c now) \<Longrightarrow>
     phase r = Question \<and> \<not> truthyStr (firstBuzzTeam (buzz r))"
  by (auto simp: updatePlayerBuzzButton_def Let_def)

lemma updatePlayerBuzzButton_keeps:
  "mode (updatePlayerBuzzButton c now) = mode c \<and>
   roomData (updatePlayerBuzzButton c now) = roomData c \<and>
   teamId (updatePlayerBuzzButton c now) = teamId c"
  by (auto simp: updatePlayerBuzzButton_def Let_def split: option.splits)

lemma updateAllUI_player:
  "mode c = Some Player \<Longrightarrow> roomData c = Some r \<Longrightarrow> updateAllUI c now = updatePlayerBuzzButton c now"
  by (simp add: updateAllUI_def)

lemma onValue_player:
  "mode c = Some Player \<Longrightarrow>
     onValue c now snap =
       (case snap of None \<Rightarrow> c\<lparr>roomData := None\<rparr>
        | Some r \<Rightarrow> updatePlayerBuzzButton (c\<lparr>roomData := Some r\<rparr>) now)"
  by (simp add: onValue_def updateAllUI_player split: option.splits)

text \<open>
  In a player's client, an enabled buzz button was computed from the snapshot the client
  holds: the phase is question and no winner is recorded.
\<close>

lemma playerReach_invariant:
  "playerReach c \<Longrightarrow>
     mode c = Some Player \<and>
     (\<forall>r. roomData c = Some r \<and> \<not> btnBuzzDisabled c \<longrightarrow>
        phase r = Question \<and> \<not> truthyStr (firstBuzzTeam (buzz r)))"
proof (induction rule: playerReach.induct)
  case (joined c0 code tId pname pid srv st c st')
  then show ?case
    by (auto simp: joinRoomAsPlayer_def Let_def split: option.splits)
next
  case (snapshot c now snap)
  then have m: "mode c = Some Player" by simp
  show ?case
  proof (cases snap)
    case None
    with m show ?thesis by (simp add: onValue_player)
  next
    case (Some r)
    let ?c = "c\<lparr>roomData := Some r\<rparr>"
    from m have "mode ?c = Some Player" "roomData ?c = Some r" by simp_all
    from updatePlayerBuzzButton_enabled[OF this] updatePlayerBuzzButton_keeps[of ?c now]
    show ?thesis using m Some by (simp add: onValue_player)
  qed
next
  case (tick c now)
  then have m: "mode c = Some Player" by simp
  show ?case
  proof (cases "roomData c")
    case None
    with m updatePlayerBuzzButton_keeps[of c now] show ?thesis by simp
  next
    case (Some r)
    from updatePlayerBuzzButton_enabled[OF m Some] updatePlayerBuzzButton_keeps[of c now]
    show ?thesis using m Some by simp
  qed
qed

text \<open>\<^verbatim>\<open>playerBuzz\<close> itself reads the phase and the deadline only.\<close>

lemma playerBuzz_with_winner:
  "playerBuzz (samplePlayer\<lparr>roomData := Some sampleWonRoom\<rparr>) 2000
     = Some (BuzzTransaction (Some ''team2''))"
  by (simp add: playerBuzz_def samplePlayer_def landing_def sampleWonRoom_def
      sampleQuestionRoom_def initialRoom_def)

lemma samplePlayer_joined:
  "joinRoomAsPlayer (landing True True) (randomCode 4271) (Some ''team2'') ''Ann'' ''p_1'' 500
     [roomPath (randomCode 4271) \<mapsto> sampleQuestionRoom]
   = (Inr samplePlayer,
      [roomPath (randomCode 4271) \<mapsto>
         sampleQuestionRoom\<lparr>players := (players sampleQuestionRoom)(''p_1'' \<mapsto>
           \<lparr>playerName = ''Ann'', playerTeamId = Some ''team2'', joinedAt = 500\<rparr>)\<rparr>])"
  by (simp add: joinRoomAsPlayer_def samplePlayer_def Let_def)

lemma samplePlayer_reach: "playerReach samplePlayer"
  by (rule playerReach.joined[OF _ samplePlayer_joined]) (simp add: landing_def)

text \<open>
  C3. The client-side gate of a buzz. In every state of a player's client, a click on the
  buzz button sends a transaction only if the snapshot the client holds has phase
  question, a deadline that the synchronized clock has not reached, and no winner
  recorded. If one of the three fails, the click sends nothing. (The phase and the
  deadline are tested by \<^verbatim>\<open>playerBuzz\<close>; the winner is tested when the button is enabled,
  on every snapshot and every tick of the timer loop.)
\<close>

theorem buzz_gate:
  assumes "playerReach c" and "btnBuzzClick c now = Some q"
  shows "q = BuzzTransaction (teamId c) \<and>
     (\<exists>r e. roomData c = Some r \<and> phase r = Question \<and>
        endAtMs (timer r) = Some e \<and> now < e \<and>
        \<not> truthyStr (firstBuzzTeam (buzz r)))"
proof -
  from assms(2) have en: "\<not> btnBuzzDisabled c" and pb: "playerBuzz c now = Some q"
    by (auto simp: btnBuzzClick_def split: if_splits)
  from playerBuzz_request[OF pb] obtain r e where
    r: "q = BuzzTransaction (teamId c)" "roomData c = Some r" "phase r = Question"
      "endAtMs (timer r) = Some e" "now < e"
    by blast
  from playerReach_invariant[OF assms(1)] r(2) en
  have "\<not> truthyStr (firstBuzzTeam (buzz r))" by blast
  with r show ?thesis by blast
qed

theorem buzz_gate_witness:
  "playerReach (onValue samplePlayer 1200 (Some sampleQuestionRoom))
   \<and> btnBuzzClick (onValue samplePlayer 1200 (Some sampleQuestionRoom)) 1300
       = Some (BuzzTransaction (Some ''team2''))
   \<and> roomData (onValue samplePlayer 1200 (Some sampleQuestionRoom)) = Some sampleQuestionRoom
   \<and> phase sampleQuestionRoom = Question
   \<and> endAtMs (timer sampleQuestionRoom) = Some 21000
   \<and> \<not> truthyStr (firstBuzzTeam (buzz sampleQuestionRoom))
   \<and> playerReach (onValue samplePlayer 1600 (Some sampleWonRoom))
   \<and> btnBuzzClick (onValue samplePlayer 1600 (Some sampleWonRoom)) 1700 = None"
proof -
  let ?c = "onValue samplePlayer 1200 (Some sampleQuestionRoom)"
  let ?d = "onValue samplePlayer 1600 (Some sampleWonRoom)"
  have rc: "playerReach ?c" and rd: "playerReach ?d"
    by (rule playerReach.snapshot[OF samplePlayer_reach])+
  have m: "mode samplePlayer = Some Player" by (simp add: samplePlayer_def)
  have c: "?c = updatePlayerBuzzButton (samplePlayer\<lparr>roomData := Some sampleQuestionRoom\<rparr>) 1200"
    by (simp add: onValue_player[OF m])
  have click: "btnBuzzClick ?c 1300 = Some (BuzzTransaction (Some ''team2''))"
    unfolding c
    by (simp add: updatePlayerBuzzButton_def btnBuzzClick_def playerBuzz_def
        samplePlayer_def landing_def sampleQuestionRoom_def initialRoom_def truthyStr_def Let_def)
  from buzz_gate[OF rc click]
  have 1: "\<exists>r e. roomData ?c = Some r \<and> phase r = Question \<and>
        endAtMs (timer r) = Some e \<and> 1300 < e \<and> \<not> truthyStr (firstBuzzTeam (buzz r))"
    by blast
  have 2: "roomData ?c = Some sampleQuestionRoom"
    by (simp add: onValue_player[OF m] updatePlayerBuzzButton_keeps)
  from 1 2 have 3: "phase sampleQuestionRoom = Question"
    "\<not> truthyStr (firstBuzzTeam (buzz sampleQuestionRoom))" by auto
  have 4: "endAtMs (timer sampleQuestionRoom) = Some 21000"
    by (simp add: sampleQuestionRoom_def)
  have 5: "roomData ?d = Some sampleWonRoom"
    by (simp add: onValue_player[OF m] updatePlayerBuzzButton_keeps)
  have w: "truthyStr (firstBuzzTeam (buzz sampleWonRoom))"
    by (simp add: sampleWonRoom_def truthyStr_def)
  have 6: "btnBuzzClick ?d 1700 = None"
  proof (cases "btnBuzzClick ?d 1700")
    case None
    then show ?thesis .
  next
    case (Some q)
    from buzz_gate[OF rd Some] 5 w show ?thesis by auto
  qed
  from rc click 2 3 4 rd 6 show ?thesis by blast
qed

section \<open>The host's client\<close>

lemma openClueModal_noop: "openClueModal c k ph = c"
  by (simp add: openClueModal_def)

lemma updatePlayerBuzzButton_host:
  "mode (updatePlayerBuzzButton c now) = mode c \<and>
   activeClue (updatePlayerBuzzButton c now) = activeClue c \<and>
   clueCardOnclick (updatePlayerBuzzButton c now) = clueCardOnclick c"
  by (auto simp: updatePlayerBuzzButton_def Let_def split: option.splits)

lemma updateAllUI_host:
  "mode (updateAllUI c now) = mode c \<and>
   clueCardOnclick (updateAllUI c now) = clueCardOnclick c \<and>
   (activeClue c = None \<longrightarrow> activeClue (updateAllUI c now) = None)"
  by (cases "roomData c")
    (simp_all add: updateAllUI_def openClueModal_noop closeClueModal_def Let_def
      updatePlayerBuzzButton_host split: option.splits)

lemma onValue_host:
  "mode (onValue c now snap) = mode c \<and>
   clueCardOnclick (onValue c now snap) = clueCardOnclick c \<and>
   (activeClue c = None \<longrightarrow> activeClue (onValue c now snap) = None)"
proof (cases snap)
  case None
  then show ?thesis by (simp add: onValue_def)
next
  case (Some r)
  with updateAllUI_host[of "c\<lparr>roomData := Some r\<rparr>" now] show ?thesis
    by (simp add: onValue_def)
qed

lemma onHostTileClick_client: "onHostTileClick c now k = Inr (c', q) \<Longrightarrow> c' = c"
  by (auto simp: onHostTileClick_def openClueModal_noop Let_def split: option.splits if_splits)

lemma returnToBoard_client:
  "returnToBoardAndMarkUsed c = (c', q) \<Longrightarrow> c' = c \<or> c' = closeClueModal c"
  by (auto simp: returnToBoardAndMarkUsed_def split: option.splits if_splits)

text \<open>
  The host's client never holds an active clue and its clue card never has a handler:
  the two assignments stand in the unreachable part of \<^verbatim>\<open>openClueModal\<close>.
\<close>

lemma hostReach_invariant:
  "hostReach c \<Longrightarrow> mode c = Some Host \<and> activeClue c = None \<and> clueCardOnclick c = False"
proof (induction rule: hostReach.induct)
  case (hostCreated h b resp n srv st c st')
  then show ?case
    by (auto simp: createRoomAsHost_def landing_def Let_def split: sum.splits)
next
  case (hostSnapshot c now snap)
  with onValue_host[of c now snap] show ?case by simp
next
  case (hostTile c now k c' q)
  then show ?case by (auto dest: onHostTileClick_client)
next
  case (hostCard c c' q)
  then show ?case by (auto simp: clueCardClick_def)
next
  case (hostReturn c c' q)
  then show ?case by (auto dest!: returnToBoard_client simp: closeClueModal_def)
qed

lemma sampleHost_reach: "hostReach sampleHost"
  by (rule hostReach.hostCreated[OF sampleHost_created])

lemma sampleHost_snapshot:
  "roomData (onValue sampleHost now (Some r)) = Some r"
  by (simp add: onValue_def updateAllUI_def openClueModal_noop closeClueModal_def Let_def
      updatePlayerBuzzButton_def sampleHost_fields split: option.splits)

text \<open>What the handler of the clue card does where it runs: the reveal of C5.\<close>

lemma clueCardHandler_reveals:
  "mode c = Some Host \<Longrightarrow> roomData c = Some r \<Longrightarrow>
     (phase r = Question \<longrightarrow>
        clueCardHandler c = (c\<lparr>clueInnerFlipped := True\<rparr>, Some (Update [SetPhase Answer])) \<and>
        commit srv (Update [SetPhase Answer]) r = r\<lparr>phase := Answer\<rparr>) \<and>
     (phase r \<noteq> Question \<longrightarrow> clueCardHandler c = (c, None))"
  by (simp add: clueCardHandler_def refUpdate_def)

text \<open>What the score buttons do for a client that holds an active clue: the deltas of C8.\<close>

lemma score_buttons_with_clue:
  "mode c = Some Host \<Longrightarrow> activeClue c = Some cl \<Longrightarrow>
     btnAwardT1 c = Some (ScoreTransaction ''team1'' (clueValue cl)) \<and>
     btnAwardT2 c = Some (ScoreTransaction ''team2'' (clueValue cl)) \<and>
     btnPenaltyT1 c = Some (ScoreTransaction ''team1'' (- clueValue cl)) \<and>
     btnPenaltyT2 c = Some (ScoreTransaction ''team2'' (- clueValue cl))"
  by (simp add: btnAwardT1_def btnAwardT2_def btnPenaltyT1_def btnPenaltyT2_def
      adjustScore_def activeClueValue_def)

lemma scoreCommit_adds:
  "scoreNode (scoreCommit tId d r) tId
     = Some ((case scoreNode r tId of None \<Rightarrow> 0 | Some n \<Rightarrow> n) + d)"
  by (auto simp: scoreCommit_def scoreNode_def scoreUpdateFn_def Let_def split: option.splits)

lemma scoreCommit_others:
  "t \<noteq> tId \<Longrightarrow> scoreNode (scoreCommit tId d r) t = scoreNode r t"
  by (simp add: scoreCommit_def scoreNode_def Let_def)

lemma sampleIndex_c2_v300: "map_option clueValue (sampleIndex ''c2_v300'') = Some 300"
  by code_simp

text \<open>
  C5 (the code fails the claim). The claim: revealing the answer in phase question sets
  the phase to answer and changes nothing else. The handler that does this
  (\<open>clueCardHandler_reveals\<close>) is assigned in the unreachable part of
  \<^verbatim>\<open>openClueModal\<close>, so the clue card of the host never has it: in every state of the
  host's client a click on the card sends nothing and the phase stays question.
\<close>

theorem clue_card_click_sends_nothing:
  "hostReach c \<Longrightarrow> clueCardClick c = (c, None)"
  by (auto dest: hostReach_invariant simp: clueCardClick_def)

theorem clue_card_click_sends_nothing_witness:
  "hostReach (onValue sampleHost 1000 (Some sampleQuestionRoom))
   \<and> roomData (onValue sampleHost 1000 (Some sampleQuestionRoom)) = Some sampleQuestionRoom
   \<and> phase sampleQuestionRoom = Question
   \<and> clueCardClick (onValue sampleHost 1000 (Some sampleQuestionRoom))
       = (onValue sampleHost 1000 (Some sampleQuestionRoom), None)"
proof -
  have r: "hostReach (onValue sampleHost 1000 (Some sampleQuestionRoom))"
    by (rule hostReach.hostSnapshot[OF sampleHost_reach])
  from clue_card_click_sends_nothing[OF r] r sampleHost_snapshot sampleQuestionRoom_fields(1)
  show ?thesis by blast
qed

text \<open>
  C8 (the code fails the claim). The claim: an award adds the active clue's value to the
  team's score and a penalty subtracts it. The score transaction adds its delta to the
  score, 0 when absent (\<open>scoreCommit_adds\<close>), and the buttons take the delta from
  \<^verbatim>\<open>appState.activeClue\<close> (\<open>score_buttons_with_clue\<close>); but \<^verbatim>\<open>appState.activeClue\<close> is
  assigned in the unreachable part of \<^verbatim>\<open>openClueModal\<close> only, so in every state of the
  host's client all four buttons send the delta 0.
\<close>

theorem score_buttons_send_zero:
  "hostReach c \<Longrightarrow>
     btnAwardT1 c = Some (ScoreTransaction ''team1'' 0) \<and>
     btnAwardT2 c = Some (ScoreTransaction ''team2'' 0) \<and>
     btnPenaltyT1 c = Some (ScoreTransaction ''team1'' 0) \<and>
     btnPenaltyT2 c = Some (ScoreTransaction ''team2'' 0)"
  by (auto dest: hostReach_invariant
      simp: btnAwardT1_def btnAwardT2_def btnPenaltyT1_def btnPenaltyT2_def
        adjustScore_def activeClueValue_def)

theorem score_buttons_send_zero_witness:
  "hostReach (onValue sampleHost 1000 (Some sampleQuestionRoom))
   \<and> roomData (onValue sampleHost 1000 (Some sampleQuestionRoom)) = Some sampleQuestionRoom
   \<and> activeClueKey sampleQuestionRoom = Some ''c2_v300''
   \<and> map_option clueValue (sampleIndex ''c2_v300'') = Some 300
   \<and> btnAwardT1 (onValue sampleHost 1000 (Some sampleQuestionRoom))
       = Some (ScoreTransaction ''team1'' 0)
   \<and> scoreNode (commit 0 (ScoreTransaction ''team1'' 0) sampleQuestionRoom) ''team1'' = Some 0"
proof -
  have r: "hostReach (onValue sampleHost 1000 (Some sampleQuestionRoom))"
    by (rule hostReach.hostSnapshot[OF sampleHost_reach])
  have s: "scoreNode (commit 0 (ScoreTransaction ''team1'' 0) sampleQuestionRoom) ''team1'' = Some 0"
    by (simp add: scoreCommit_adds) (simp add: scoreNode_def sampleQuestionRoom_def initialRoom_def)
  from score_buttons_send_zero[OF r] r s sampleHost_snapshot sampleQuestionRoom_fields(2)
    sampleIndex_c2_v300
  show ?thesis by blast
qed

section \<open>Buzz exclusivity\<close>

lemma clear_buzz: "b\<lparr>firstBuzzTeam := None, firstBuzzAt := None\<rparr>
    = \<lparr>firstBuzzTeam = None, firstBuzzAt = None\<rparr>"
  by (cases b) simp

lemma refUpdate_resetBuzz:
  "refUpdate [SetFirstBuzzTeam None, SetFirstBuzzAt None] r
     = r\<lparr>buzz := \<lparr>firstBuzzTeam = None, firstBuzzAt = None\<rparr>\<rparr>"
  by (simp add: refUpdate_def clear_buzz)

text \<open>
  What one step does to the buzz fields, and which steps clear them: a step keeps them,
  or is the first buzz to commit, or is one of the host's three clearing operations.
\<close>

lemma roomStep_buzz_cause:
  assumes "roomStep r r'"
  shows "buzz r' = buzz r
       \<or> (\<not> truthyStr (firstBuzzTeam (buzz r)) \<and>
           (\<exists>tid srv. buzz r' = \<lparr>firstBuzzTeam = tid, firstBuzzAt = Some srv\<rparr>))
       \<or> (buzz r' = \<lparr>firstBuzzTeam = None, firstBuzzAt = None\<rparr> \<and>
           (\<exists>c c' q now k srv.
              (onHostTileClick c now k = Inr (c', Some q) \<or>
               returnToBoardAndMarkUsed c = (c', Some q) \<or> resetBuzz c = Some q) \<and>
              r' = commit srv q r))"
  using assms
proof cases
  case (openClue c idx bank now k c' q srv)
  from openClue(5) have "buzz (commit srv q r) = \<lparr>firstBuzzTeam = None, firstBuzzAt = None\<rparr>"
    by (auto dest!: onHostTileClick_request simp: refUpdate_openClue)
  with openClue(1,5) show ?thesis by blast
next
  case (revealAnswer c c' q srv)
  then show ?thesis by (auto dest!: clueCardHandler_request simp: refUpdate_def)
next
  case (returnToBoard c c' q srv)
  from returnToBoard(3) have "buzz (commit srv q r) = \<lparr>firstBuzzTeam = None, firstBuzzAt = None\<rparr>"
    by (auto dest!: returnToBoard_request simp: refUpdate_return)
  with returnToBoard(1,3) show ?thesis by blast
next
  case (buzzReset c q srv)
  from buzzReset(2) have "buzz (commit srv q r) = \<lparr>firstBuzzTeam = None, firstBuzzAt = None\<rparr>"
    by (auto dest!: resetBuzz_request simp: refUpdate_resetBuzz)
  with buzzReset show ?thesis by blast
next
  case (timerReset c now q srv)
  then show ?thesis by (auto dest!: resetTimer_request simp: refUpdate_def)
next
  case (scoreAdjust c tId delta q srv)
  then show ?thesis by (auto dest!: adjustScore_request simp: scoreCommit_def Let_def)
next
  case (buzzAttempt c now q srv)
  then have "r' = buzzCommit (teamId c) srv r" by (auto dest!: playerBuzz_request)
  then show ?thesis
    by (cases "truthyStr (firstBuzzTeam (buzz r))") (auto simp: buzzCommit_set buzzCommit_unset)
next
  case (playerJoin pid entry)
  then show ?thesis by simp
qed

lemma sample_buzz_step:
  "roomStep sampleQuestionRoom
     (sampleQuestionRoom\<lparr>buzz := \<lparr>firstBuzzTeam = Some t, firstBuzzAt = Some srv\<rparr>\<rparr>)"
proof -
  let ?c = "samplePlayer\<lparr>teamId := Some t, roomData := Some sampleQuestionRoom\<rparr>"
  have p: "playerBuzz ?c 1400 = Some (BuzzTransaction (Some t))"
    by (simp add: playerBuzz_def sampleQuestionRoom_fields)
  have u: "\<not> truthyStr (firstBuzzTeam (buzz sampleQuestionRoom))"
    by (simp add: sampleQuestionRoom_fields truthyStr_def)
  from roomStep.buzzAttempt[OF p, of sampleQuestionRoom srv] buzzCommit_unset[OF u, of "Some t" srv]
  show ?thesis by simp
qed

lemma sample_reset_step: "roomStep sampleWonRoom sampleQuestionRoom"
proof -
  have q: "resetBuzz sampleHost = Some (Update [SetFirstBuzzTeam None, SetFirstBuzzAt None])"
    by (simp add: resetBuzz_def sampleHost_fields)
  have e: "sampleWonRoom\<lparr>buzz := \<lparr>firstBuzzTeam = None, firstBuzzAt = None\<rparr>\<rparr> = sampleQuestionRoom"
    by (simp add: sampleWonRoom_def sampleQuestionRoom_def initialRoom_def)
  from roomStep.buzzReset[OF q, of sampleWonRoom 0] e show ?thesis
    by (simp add: refUpdate_resetBuzz)
qed

text \<open>
  C1 as the specification states it fails: within one question cycle (the clue
  \<^verbatim>\<open>c2_v300\<close> stays open, no clue is opened in between) team 1 wins the buzz, the host
  resets the buzz, and team 2 wins it; subscribers see two different winners.
\<close>

theorem buzz_exclusivity_counterexample:
  "roomStep sampleQuestionRoom sampleWonRoom
   \<and> roomStep sampleWonRoom sampleQuestionRoom
   \<and> roomStep sampleQuestionRoom
        (sampleQuestionRoom\<lparr>buzz := \<lparr>firstBuzzTeam = Some ''team2'', firstBuzzAt = Some 1700\<rparr>\<rparr>)
   \<and> phase sampleQuestionRoom = Question \<and> phase sampleWonRoom = Question
   \<and> activeClueKey sampleQuestionRoom = Some ''c2_v300''
   \<and> activeClueKey sampleWonRoom = Some ''c2_v300''
   \<and> firstBuzzTeam (buzz sampleWonRoom) = Some ''team1''
   \<and> firstBuzzTeam (buzz (sampleQuestionRoom
        \<lparr>buzz := \<lparr>firstBuzzTeam = Some ''team2'', firstBuzzAt = Some 1700\<rparr>\<rparr>)) = Some ''team2''
   \<and> Some ''team1'' \<noteq> Some ''team2''"
proof -
  have 1: "roomStep sampleQuestionRoom sampleWonRoom"
    using sample_buzz_step[of "''team1''" 1500] by (simp add: sampleWonRoom_def)
  have 2: "phase sampleWonRoom = Question" "activeClueKey sampleWonRoom = Some ''c2_v300''"
    "firstBuzzTeam (buzz sampleWonRoom) = Some ''team1''"
    by (simp_all add: sampleWonRoom_def sampleQuestionRoom_fields)
  from 1 2 sample_reset_step sample_buzz_step[of "''team2''" 1700] sampleQuestionRoom_fields(1,2)
  show ?thesis by simp
qed

text \<open>
  C1, amended. The update function aborts when \<^verbatim>\<open>firstBuzzTeam\<close> is set, and the room is
  left as it is, by every later attempt too. When it is not set, the commit writes
  \<^verbatim>\<open>firstBuzzTeam\<close> and \<^verbatim>\<open>firstBuzzAt\<close> in one step, and every room a subscriber sees
  during the attempts that follow has this first team and time: one value, which does not
  change. A set winner stays until the host clears it: a step of the room keeps the buzz
  fields, or it clears both and is then the host opening a clue, returning to the board
  or resetting the buzz. These three operations clear the fields; revealing the answer,
  resetting the timer, adjusting a score, a player joining and a buzz that comes too late
  leave them as they are.
\<close>

theorem buzz_exclusivity:
  "(truthyStr (firstBuzzTeam (buzz r)) \<longrightarrow>
      buzzUpdateFn tid (buzzNode r) = Inr None \<and> buzzCommit tid srv r = r \<and>
      (\<forall>r' \<in> set (buzzTrace r as). r' = r))
   \<and> (\<not> truthyStr (firstBuzzTeam (buzz r)) \<longrightarrow>
      buzzUpdateFn tid (buzzNode r)
        = Inr (Some \<lparr>newFirstBuzzTeam = tid, newFirstBuzzAt = TIMESTAMP\<rparr>) \<and>
      buzzCommit tid srv r = r\<lparr>buzz := \<lparr>firstBuzzTeam = tid, firstBuzzAt = Some srv\<rparr>\<rparr> \<and>
      (truthyStr tid \<longrightarrow>
         (\<forall>r' \<in> set (buzzTrace r ((tid, srv) # as)).
            r' = r\<lparr>buzz := \<lparr>firstBuzzTeam = tid, firstBuzzAt = Some srv\<rparr>\<rparr>)))
   \<and> (roomStep r r1 \<and> truthyStr (firstBuzzTeam (buzz r)) \<longrightarrow>
        buzz r1 = buzz r \<or>
        (buzz r1 = \<lparr>firstBuzzTeam = None, firstBuzzAt = None\<rparr> \<and>
         (\<exists>c1 c2 q1 now1 k1 srv1.
            (onHostTileClick c1 now1 k1 = Inr (c2, Some q1) \<or>
             returnToBoardAndMarkUsed c1 = (c2, Some q1) \<or> resetBuzz c1 = Some q1) \<and>
            r1 = commit srv1 q1 r)))
   \<and> (onHostTileClick c now k = Inr (c', Some q) \<or>
       returnToBoardAndMarkUsed c = (c', Some q) \<or> resetBuzz c = Some q \<longrightarrow>
        buzz (commit srv q r) = \<lparr>firstBuzzTeam = None, firstBuzzAt = None\<rparr>)
   \<and> (clueCardHandler c = (c', Some q) \<or> resetTimer c now = Inr (Some q) \<or>
       adjustScore c tId delta = Some q \<longrightarrow>
        buzz (commit srv q r) = buzz r)
   \<and> (playerBuzz c now = Some q \<and> truthyStr (firstBuzzTeam (buzz r)) \<longrightarrow>
        commit srv q r = r)
   \<and> buzz (r\<lparr>players := (players r)(pid \<mapsto> entry)\<rparr>) = buzz r"
proof (intro conjI impI ballI)
  assume s: "truthyStr (firstBuzzTeam (buzz r))"
  then show "buzzUpdateFn tid (buzzNode r) = Inr None"
    by (simp add: buzzUpdateFn_abort member_buzzNode)
  from s show "buzzCommit tid srv r = r" by (rule buzzCommit_set)
  fix r' assume "r' \<in> set (buzzTrace r as)"
  with s show "r' = r" by (rule buzzTrace_set)
next
  assume u: "\<not> truthyStr (firstBuzzTeam (buzz r))"
  then show "buzzUpdateFn tid (buzzNode r)
      = Inr (Some \<lparr>newFirstBuzzTeam = tid, newFirstBuzzAt = TIMESTAMP\<rparr>)"
    by (simp add: buzzUpdateFn_write member_buzzNode)
  from u show "buzzCommit tid srv r = r\<lparr>buzz := \<lparr>firstBuzzTeam = tid, firstBuzzAt = Some srv\<rparr>\<rparr>"
    by (rule buzzCommit_unset)
  fix r' assume "truthyStr tid" and "r' \<in> set (buzzTrace r ((tid, srv) # as))"
  with u show "r' = r\<lparr>buzz := \<lparr>firstBuzzTeam = tid, firstBuzzAt = Some srv\<rparr>\<rparr>"
    by (rule buzzTrace_first)
next
  assume "roomStep r r1 \<and> truthyStr (firstBuzzTeam (buzz r))"
  then show "buzz r1 = buzz r \<or>
        (buzz r1 = \<lparr>firstBuzzTeam = None, firstBuzzAt = None\<rparr> \<and>
         (\<exists>c1 c2 q1 now1 k1 srv1.
            (onHostTileClick c1 now1 k1 = Inr (c2, Some q1) \<or>
             returnToBoardAndMarkUsed c1 = (c2, Some q1) \<or> resetBuzz c1 = Some q1) \<and>
            r1 = commit srv1 q1 r))"
    using roomStep_buzz_cause[of r r1] by blast
next
  assume "onHostTileClick c now k = Inr (c', Some q) \<or>
       returnToBoardAndMarkUsed c = (c', Some q) \<or> resetBuzz c = Some q"
  then show "buzz (commit srv q r) = \<lparr>firstBuzzTeam = None, firstBuzzAt = None\<rparr>"
    by (auto dest!: onHostTileClick_request returnToBoard_request resetBuzz_request
        simp: refUpdate_openClue refUpdate_return refUpdate_resetBuzz)
next
  assume "clueCardHandler c = (c', Some q) \<or> resetTimer c now = Inr (Some q) \<or>
       adjustScore c tId delta = Some q"
  then show "buzz (commit srv q r) = buzz r"
    by (auto dest!: clueCardHandler_request resetTimer_request adjustScore_request
        simp: refUpdate_def scoreCommit_def Let_def)
next
  assume "playerBuzz c now = Some q \<and> truthyStr (firstBuzzTeam (buzz r))"
  then show "commit srv q r = r"
    by (auto dest!: playerBuzz_request simp: buzzCommit_set)
next
  show "buzz (r\<lparr>players := (players r)(pid \<mapsto> entry)\<rparr>) = buzz r" by simp
qed

theorem buzz_exclusivity_witness:
  "\<not> truthyStr (firstBuzzTeam (buzz sampleQuestionRoom))
   \<and> truthyStr (Some ''team2'')
   \<and> length (buzzTrace sampleQuestionRoom
        [(Some ''team2'', 1500), (Some ''team1'', 1501), (Some ''team2'', 1502)]) = 3
   \<and> list_all (\<lambda>r'. firstBuzzTeam (buzz r') = Some ''team2'' \<and> firstBuzzAt (buzz r') = Some 1500)
        (buzzTrace sampleQuestionRoom
           [(Some ''team2'', 1500), (Some ''team1'', 1501), (Some ''team2'', 1502)])
   \<and> buzzCommit (Some ''team1'') 1501 (buzzCommit (Some ''team2'') 1500 sampleQuestionRoom)
      = buzzCommit (Some ''team2'') 1500 sampleQuestionRoom
   \<and> truthyStr (firstBuzzTeam (buzz sampleWonRoom))
   \<and> adjustScore sampleHost ''team1'' 300 = Some (ScoreTransaction ''team1'' 300)
   \<and> buzz (commit 0 (ScoreTransaction ''team1'' 300) sampleWonRoom) = buzz sampleWonRoom
   \<and> resetBuzz sampleHost = Some (Update [SetFirstBuzzTeam None, SetFirstBuzzAt None])
   \<and> buzz (commit 0 (Update [SetFirstBuzzTeam None, SetFirstBuzzAt None]) sampleWonRoom)
       = \<lparr>firstBuzzTeam = None, firstBuzzAt = None\<rparr>"
proof -
  let ?r = sampleQuestionRoom
  let ?w = "?r\<lparr>buzz := \<lparr>firstBuzzTeam = Some ''team2'', firstBuzzAt = Some 1500\<rparr>\<rparr>"
  have u: "\<not> truthyStr (firstBuzzTeam (buzz ?r))"
    by (simp add: sampleQuestionRoom_def initialRoom_def truthyStr_def)
  have t: "truthyStr (Some ''team2'')" by (simp add: truthyStr_def)
  from buzz_exclusivity[where r = ?r and tid = "Some ''team2''" and srv = 1500
      and as = "[(Some ''team1'', 1501), (Some ''team2'', 1502)]"] u t
  have c: "buzzCommit (Some ''team2'') 1500 ?r = ?w"
    and a: "\<forall>r' \<in> set (buzzTrace ?r
        [(Some ''team2'', 1500), (Some ''team1'', 1501), (Some ''team2'', 1502)]). r' = ?w"
    by blast+
  have s: "truthyStr (firstBuzzTeam (buzz ?w))" by (simp add: truthyStr_def)
  from buzz_exclusivity[where r = ?w and tid = "Some ''team1''" and srv = 1501 and as = "[]"] s
  have "buzzCommit (Some ''team1'') 1501 ?w = ?w" by blast
  with c have l: "buzzCommit (Some ''team1'') 1501 (buzzCommit (Some ''team2'') 1500 ?r)
      = buzzCommit (Some ''team2'') 1500 ?r" by simp
  have n: "length (buzzTrace ?r
      [(Some ''team2'', 1500), (Some ''team1'', 1501), (Some ''team2'', 1502)]) = 3" by simp
  have "\<forall>r' \<in> set (buzzTrace ?r
        [(Some ''team2'', 1500), (Some ''team1'', 1501), (Some ''team2'', 1502)]).
      firstBuzzTeam (buzz r') = Some ''team2'' \<and> firstBuzzAt (buzz r') = Some 1500"
  proof
    fix r' assume "r' \<in> set (buzzTrace ?r
        [(Some ''team2'', 1500), (Some ''team1'', 1501), (Some ''team2'', 1502)])"
    with a have "r' = ?w" by blast
    then show "firstBuzzTeam (buzz r') = Some ''team2'' \<and> firstBuzzAt (buzz r') = Some 1500"
      by simp
  qed
  then have "list_all (\<lambda>r'. firstBuzzTeam (buzz r') = Some ''team2'' \<and> firstBuzzAt (buzz r') = Some 1500)
        (buzzTrace ?r [(Some ''team2'', 1500), (Some ''team1'', 1501), (Some ''team2'', 1502)])"
    by (simp only: list_all_iff)
  have sw: "truthyStr (firstBuzzTeam (buzz sampleWonRoom))"
    by (simp add: sampleWonRoom_def truthyStr_def)
  have aj: "adjustScore sampleHost ''team1'' 300 = Some (ScoreTransaction ''team1'' 300)"
    by (simp add: adjustScore_def sampleHost_fields)
  have rb: "resetBuzz sampleHost = Some (Update [SetFirstBuzzTeam None, SetFirstBuzzAt None])"
    by (simp add: resetBuzz_def sampleHost_fields)
  from buzz_exclusivity[where r = sampleWonRoom and c = sampleHost and tId = "''team1''"
      and delta = 300 and q = "ScoreTransaction ''team1'' 300" and srv = 0] aj
  have kept: "buzz (commit 0 (ScoreTransaction ''team1'' 300) sampleWonRoom) = buzz sampleWonRoom"
    by blast
  from buzz_exclusivity[where r = sampleWonRoom and c = sampleHost
      and q = "Update [SetFirstBuzzTeam None, SetFirstBuzzAt None]" and srv = 0] rb
  have cleared: "buzz (commit 0 (Update [SetFirstBuzzTeam None, SetFirstBuzzAt None]) sampleWonRoom)
       = \<lparr>firstBuzzTeam = None, firstBuzzAt = None\<rparr>"
    by blast
  from u t l n \<open>list_all (\<lambda>r'. firstBuzzTeam (buzz r') = Some ''team2'' \<and> firstBuzzAt (buzz r') = Some 1500)
        (buzzTrace ?r [(Some ''team2'', 1500), (Some ''team1'', 1501), (Some ''team2'', 1502)])\<close>
    sw aj kept rb cleared
  show ?thesis by blast
qed

end
